theory Spec2Isabelle
  imports Main "HOL-Library.Sublist"
begin

section \<open>Python strings\<close>

text \<open>
  Text is a list of characters. The operations below are the \<^verbatim>\<open>str\<close> methods the
  source calls, on ASCII text: \<^verbatim>\<open>upper\<close> and \<^verbatim>\<open>lower\<close> change the 26 letters and nothing
  else, and the characters \<^verbatim>\<open>strip\<close> removes are those for which \<^verbatim>\<open>str.isspace\<close> holds in
  the ASCII range (tab, line feed, vertical tab, form feed, carriage return, the four
  separators 0x1C to 0x1F and the blank).
\<close>

definition is_space :: "char \<Rightarrow> bool" where
  "is_space c = (c \<in> set [CHR 0x09, CHR 0x0A, CHR 0x0B, CHR 0x0C, CHR 0x0D,
                           CHR 0x1C, CHR 0x1D, CHR 0x1E, CHR 0x1F, CHR 0x20])"

definition strip :: "string \<Rightarrow> string" where
  "strip s = rev (dropWhile is_space (rev (dropWhile is_space s)))"

definition upper_char :: "char \<Rightarrow> char" where
  "upper_char c =
     (case map_of (zip ''abcdefghijklmnopqrstuvwxyz'' ''ABCDEFGHIJKLMNOPQRSTUVWXYZ'') c of
        None \<Rightarrow> c | Some u \<Rightarrow> u)"

definition lower_char :: "char \<Rightarrow> char" where
  "lower_char c =
     (case map_of (zip ''ABCDEFGHIJKLMNOPQRSTUVWXYZ'' ''abcdefghijklmnopqrstuvwxyz'') c of
        None \<Rightarrow> c | Some l \<Rightarrow> l)"

definition upper :: "string \<Rightarrow> string" where
  "upper s = map upper_char s"

definition lower :: "string \<Rightarrow> string" where
  "lower s = map lower_char s"

text \<open>\<^verbatim>\<open>s.startswith(p)\<close>.\<close>

definition startswith :: "string \<Rightarrow> string \<Rightarrow> bool" where
  "startswith s p = prefix p s"

text \<open>\<^verbatim>\<open>sub in s\<close>: \<^verbatim>\<open>sub\<close> occurs in \<^verbatim>\<open>s\<close> as a contiguous run of characters.\<close>

fun str_contains :: "string \<Rightarrow> string \<Rightarrow> bool" where
  "str_contains sub [] = (sub = [])"
| "str_contains sub (c # cs) = (prefix sub (c # cs) \<or> str_contains sub cs)"

text \<open>
  \<^verbatim>\<open>s.replace(old, '')\<close> for a non-empty \<^verbatim>\<open>old\<close>: the occurrences of \<^verbatim>\<open>old\<close> are removed
  from left to right, without overlap. (The source only removes the four labels
  \<^verbatim>\<open>'FOR:'\<close>, \<^verbatim>\<open>'FOR'\<close>, \<^verbatim>\<open>'AGAINST:'\<close>, \<^verbatim>\<open>'AGAINST'\<close> and the words \<^verbatim>\<open>'true'\<close>, \<^verbatim>\<open>'false'\<close>.)
\<close>

function str_remove :: "string \<Rightarrow> string \<Rightarrow> string" where
  "str_remove old [] = []"
| "str_remove old (c # cs) =
     (if old \<noteq> [] \<and> prefix old (c # cs) then str_remove old (drop (length old) (c # cs))
      else c # str_remove old cs)"
  by pat_completeness auto
termination
  by (relation "measure (\<lambda>(old, s). length s)") (auto simp: neq_Nil_conv)

text \<open>
  \<^verbatim>\<open>s.split('\n')\<close>: the pieces between line feeds, empty pieces kept. A character
  other than the line feed joins the first piece of the rest (there always is one).
\<close>

fun split_nl :: "string \<Rightarrow> string list" where
  "split_nl [] = [[]]"
| "split_nl (c # cs) =
     (if c = CHR 0x0A then [] # split_nl cs
      else (case split_nl cs of
              l # ls \<Rightarrow> (c # l) # ls
            | [] \<Rightarrow> [[c]]))"

text \<open>\<^verbatim>\<open>'\n'.join(xs)\<close>.\<close>

fun join_nl :: "string list \<Rightarrow> string" where
  "join_nl [] = []"
| "join_nl [x] = x"
| "join_nl (x # y # ys) = x @ [CHR 0x0A] @ join_nl (y # ys)"

text \<open>\<^verbatim>\<open>xs[-n:]\<close>: the last \<^verbatim>\<open>n\<close> elements, all of them when there are fewer.\<close>

definition last_n :: "nat \<Rightarrow> 'a list \<Rightarrow> 'a list" where
  "last_n n xs = drop (length xs - n) xs"

text \<open>The decimal numeral of a natural number, as an f-string prints it.\<close>

fun str_nat :: "nat \<Rightarrow> string" where
  "str_nat n =
     (if n < 10 then [''0123456789'' ! n]
      else str_nat (n div 10) @ [''0123456789'' ! (n mod 10)])"

declare str_nat.simps [simp del]

text \<open>
  The non-empty trimmed lines of a text:
  \<^verbatim>\<open>[line.strip() for line in result.split('\n') if line.strip()]\<close>.
\<close>

definition stripped_lines :: "string \<Rightarrow> string list" where
  "stripped_lines result = map strip (filter (\<lambda>line. strip line \<noteq> []) (split_nl result))"


section \<open>Exceptions and the inference backend\<close>

text \<open>
  An exception is its class and its message (\<^verbatim>\<open>str(e)\<close>). The first five classes are
  raised inside the \<^verbatim>\<open>requests\<close> library: \<^verbatim>\<open>requests.exceptions.ConnectionError\<close> (a
  connection that fails or is refused), \<^verbatim>\<open>ConnectTimeout\<close> (the connection is not
  established within the timeout), \<^verbatim>\<open>requests.exceptions.Timeout\<close> (any other timeout,
  as \<^verbatim>\<open>ReadTimeout\<close>: the server does not answer within the timeout), \<^verbatim>\<open>JSONDecodeError\<close>
  (\<^verbatim>\<open>response.json()\<close> on a body that is not JSON) and \<^verbatim>\<open>HTTPError\<close> (\<^verbatim>\<open>raise_for_status\<close>
  on an error status). The others are Python's built-in classes.
\<close>

datatype exn_class =
    RequestsConnectionError | ConnectTimeout | RequestsTimeout | JSONDecodeError | HTTPError
  | ConnectionError | TimeoutError | ValueError | KeyError | TypeError | AttributeError
  | OtherException

datatype exn = Exn (cls: exn_class) (msg: string)

text \<open>
  \<^verbatim>\<open>isinstance\<close>, as an \<^verbatim>\<open>except\<close> clause tests it: an exception is an instance of its own
  class and of the classes that class inherits from. In \<^verbatim>\<open>requests\<close>, \<^verbatim>\<open>ConnectTimeout\<close>
  inherits from both \<^verbatim>\<open>ConnectionError\<close> and \<^verbatim>\<open>Timeout\<close>; no other class above
  inherits from another one of them.
\<close>

definition is_instance :: "exn_class \<Rightarrow> exn_class \<Rightarrow> bool" where
  "is_instance c base =
     (c = base \<or> (c = ConnectTimeout \<and> (base = RequestsConnectionError \<or> base = RequestsTimeout)))"

text \<open>
  A JSON object whose fields are text, as an association list. \<^verbatim>\<open>d[k]\<close> raises
  \<^verbatim>\<open>KeyError\<close> on a missing key (its message is the quoted key); \<^verbatim>\<open>d.get(k)\<close> does not.
\<close>

type_synonym dict = "(string \<times> string) list"

definition subscript :: "dict \<Rightarrow> string \<Rightarrow> exn + string" where
  "subscript d k =
     (case map_of d k of
        None \<Rightarrow> Inl (Exn KeyError ([CHR 0x27] @ k @ [CHR 0x27]))
      | Some v \<Rightarrow> Inr v)"

text \<open>
  What the three statements in the \<^verbatim>\<open>try\<close> block of \<^verbatim>\<open>_make_api_request\<close> do
  (\<^verbatim>\<open>requests.post\<close>, \<^verbatim>\<open>raise_for_status\<close>, \<^verbatim>\<open>response.json()\<close>): one of them raises, or
  the parsed body is returned. The backend is outside the program: it is a parameter
  that answers the \<open>n\<close>-th request (counting from 0) for a model name and a prompt.
  The log lists the requests sent so far, oldest first.
\<close>

datatype outcome = Raises exn | Returns dict

type_synonym backend = "nat \<Rightarrow> string \<Rightarrow> string \<Rightarrow> outcome"

type_synonym log = "(string \<times> string) list"

text \<open>
  \<^verbatim>\<open>_make_api_request\<close> (the same in all four model classes, up to the timeout): the
  \<^verbatim>\<open>except\<close> clauses are tried in their order; the first three replace the exception,
  the last one re-raises it as it is.
\<close>

definition make_api_request ::
  "backend \<Rightarrow> string \<Rightarrow> string \<Rightarrow> log \<Rightarrow> (exn + dict) \<times> log" where
  "make_api_request be model_name prompt lg =
     ((case be (length lg) model_name prompt of
         Returns response \<Rightarrow> Inr response
       | Raises e \<Rightarrow>
           (if is_instance (cls e) RequestsConnectionError
            then Inl (Exn ConnectionError ''AI service is unavailable'')
            else if is_instance (cls e) RequestsTimeout
            then Inl (Exn TimeoutError ''Request took too long to process'')
            else if is_instance (cls e) JSONDecodeError
            then Inl (Exn ValueError ''Invalid response from AI service'')
            else Inl e)),
      lg @ [(model_name, prompt)])"

text \<open>
  The text of the reply: \<^verbatim>\<open>response = self._make_api_request(prompt)\<close> followed by
  \<^verbatim>\<open>response['response']\<close>, as the first statements of a \<^verbatim>\<open>try\<close> block.
\<close>

definition request_text ::
  "backend \<Rightarrow> string \<Rightarrow> string \<Rightarrow> log \<Rightarrow> (exn + string) \<times> log" where
  "request_text be model_name prompt lg =
     (case make_api_request be model_name prompt lg of
        (Inl e, lg') \<Rightarrow> (Inl e, lg')
      | (Inr response, lg') \<Rightarrow> (subscript response ''response'', lg'))"


section \<open>FilterModel\<close>

record filter_result =
  is_appropriate :: bool
  f_reason :: string

definition filter_prompt :: "string \<Rightarrow> string" where
  "filter_prompt topic =
     ''\<newline>        Analyze the following debate topic and determine if it is appropriate:\<newline>''
     @ ''        Topic: '' @ topic @ ''\<newline>''
     @ ''        \<newline>''
     @ ''        Consider these criteria:\<newline>''
     @ ''        1. Not harmful or promoting hate\<newline>''
     @ ''        2. Not explicitly graphic or violent\<newline>''
     @ ''        3. Suitable for constructive debate\<newline>''
     @ ''        4. Not personally targeting individuals\<newline>''
     @ ''        \<newline>''
     @ ''        Return only 'true' if the topic is appropriate for debate, 'false' if not.\<newline>''
     @ ''        Include a brief reason for the decision.\<newline>''
     @ ''        ''"

text \<open>
  \<^verbatim>\<open>FilterModel.filter_topic\<close>. The emptiness check stands before the \<^verbatim>\<open>try\<close> block, so
  its \<^verbatim>\<open>ValueError\<close> reaches the caller; everything raised inside the block is caught.
\<close>

definition filter_topic ::
  "backend \<Rightarrow> string \<Rightarrow> string \<Rightarrow> log \<Rightarrow> (exn + filter_result) \<times> log" where
  "filter_topic be model_name topic lg =
     (if topic = [] \<or> length (strip topic) = 0
      then (Inl (Exn ValueError ''Empty topic provided''), lg)
      else
        (case request_text be model_name (filter_prompt topic) lg of
           (Inr text, lg') \<Rightarrow>
             (let result = lower (strip text);
                  appropriate = str_contains ''true'' result;
                  reason = strip (str_remove ''false'' (str_remove ''true'' result))
              in (Inr \<lparr>is_appropriate = appropriate,
                        f_reason = (if reason \<noteq> [] then reason
                                    else ''Topic analyzed for appropriateness'')\<rparr>, lg'))
         | (Inl e, lg') \<Rightarrow>
             (Inr \<lparr>is_appropriate = False,
                    f_reason = ''Unable to verify topic appropriateness''\<rparr>, lg')))"


section \<open>PromptModel: stances\<close>

definition stances_prompt :: "string \<Rightarrow> string" where
  "stances_prompt topic =
     ''You are helping set up a debate about: '' @ [CHR 0x27] @ topic @ [CHR 0x27] @ ''\<newline>\<newline>''
     @ ''Generate exactly two opposing stances in this exact format:\<newline>''
     @ ''FOR: (write a one-sentence stance supporting the topic)\<newline>''
     @ ''AGAINST: (write a one-sentence stance opposing the topic)\<newline>\<newline>''
     @ ''Make each stance clear and specific. Do not add any other text.\<newline>''
     @ ''Example format:\<newline>''
     @ ''FOR: Remote work increases productivity and work-life balance while reducing commute times and environmental impact.\<newline>''
     @ ''AGAINST: Traditional office work promotes better collaboration, team cohesion, and work-life separation while ensuring proper oversight.''"

definition simple_prompt :: "string \<Rightarrow> string" where
  "simple_prompt topic =
     ''Topic: '' @ topic @ ''\<newline>\<newline>''
     @ ''1. Write one sentence supporting this topic.\<newline>''
     @ ''2. Write one sentence opposing this topic.\<newline>''
     @ ''Be clear and specific.''"

text \<open>
  The body of the loop \<^verbatim>\<open>for line in lines\<close> of \<^verbatim>\<open>generate_stances\<close>: the state is the
  pair \<^verbatim>\<open>(for_stance, against_stance)\<close>, the four branches are tried in the source's
  order.
\<close>

definition stance_step :: "string \<times> string \<Rightarrow> string \<Rightarrow> string \<times> string" where
  "stance_step st line0 =
     (let line = strip line0 in
      if startswith (upper line) ''FOR:'' then (strip (drop 4 line), snd st)
      else if startswith (upper line) ''AGAINST:'' then (fst st, strip (drop 8 line))
      else if startswith (upper line) ''FOR '' then (strip (drop 4 line), snd st)
      else if startswith (upper line) ''AGAINST '' then (fst st, strip (drop 8 line))
      else st)"

text \<open>
  The parsing part of \<^verbatim>\<open>generate_stances\<close>, from the reply's text to the two cleaned
  statements: the loop over the lines, the fall-back to the first two lines when both
  statements are still empty, and the removal of the labels.
\<close>

definition parse_stances :: "string \<Rightarrow> string \<times> string" where
  "parse_stances result =
     (let lines = stripped_lines result;
          st = foldl stance_step ([], []) lines;
          st' = (if fst st = [] \<and> snd st = [] \<and> length lines \<ge> 2
                 then (strip (lines ! 0), strip (lines ! 1)) else st);
          for_stance = strip (str_remove ''FOR'' (str_remove ''FOR:'' (fst st')));
          against_stance = strip (str_remove ''AGAINST'' (str_remove ''AGAINST:'' (snd st')))
      in (for_stance, against_stance))"

text \<open>
  \<^verbatim>\<open>PromptModel._retry_generate_stances\<close>: every exception of its \<^verbatim>\<open>try\<close> block, its own
  \<^verbatim>\<open>ValueError\<close> included, is replaced by one \<^verbatim>\<open>ValueError\<close>.
\<close>

definition retry_generate_stances ::
  "backend \<Rightarrow> string \<Rightarrow> string \<Rightarrow> log \<Rightarrow> (exn + string \<times> string) \<times> log" where
  "retry_generate_stances be model_name topic lg =
     (case request_text be model_name (simple_prompt topic) lg of
        (Inr text, lg') \<Rightarrow>
          (let lines = stripped_lines text in
           if length lines \<ge> 2 then (Inr (lines ! 0, lines ! 1), lg')
           else (Inl (Exn ValueError ''Failed to generate debate stances even with retry''), lg'))
      | (Inl e, lg') \<Rightarrow>
          (Inl (Exn ValueError ''Failed to generate debate stances even with retry''), lg'))"

text \<open>
  \<^verbatim>\<open>PromptModel.generate_stances\<close>. The call of the retry stands inside the \<^verbatim>\<open>try\<close> block,
  so an exception of the retry is wrapped a second time by the \<^verbatim>\<open>except\<close> clause.
\<close>

definition stances_failure :: "exn \<Rightarrow> exn" where
  "stances_failure e = Exn ValueError (''Failed to generate debate stances: '' @ msg e)"

definition generate_stances ::
  "backend \<Rightarrow> string \<Rightarrow> string \<Rightarrow> log \<Rightarrow> (exn + string \<times> string) \<times> log" where
  "generate_stances be model_name topic lg =
     (if topic = [] \<or> length (strip topic) = 0
      then (Inl (Exn ValueError ''Empty topic provided''), lg)
      else
        (case request_text be model_name (stances_prompt topic) lg of
           (Inl e, lg') \<Rightarrow> (Inl (stances_failure e), lg')
         | (Inr result, lg') \<Rightarrow>
             (let stances = parse_stances result in
              if length (fst stances) < 5 \<or> length (snd stances) < 5
              then (case retry_generate_stances be model_name topic lg' of
                      (Inl e, lg'') \<Rightarrow> (Inl (stances_failure e), lg'')
                    | (Inr retried, lg'') \<Rightarrow> (Inr retried, lg''))
              else (Inr stances, lg'))))"


section \<open>JSON values and the debate history\<close>

text \<open>
  The history of a request is JSON, so an entry is any JSON value, as \<^verbatim>\<open>json.loads\<close>
  gives it: \<^verbatim>\<open>None\<close>, a boolean, a number (an integer; the code does not compute with
  numbers), a string, a list or a dict (its items in order). A structured entry is a
  dict with the keys \<^verbatim>\<open>'side'\<close> and \<^verbatim>\<open>'text'\<close>, a legacy entry a string.
\<close>

datatype json =
    JNull | JBool bool | JNum int | JStr string | JList "json list"
  | JObj "(string \<times> json) list"

type_synonym entry = json

text \<open>
  \<^verbatim>\<open>str(x)\<close>, which an f-string applies to the value it prints: a string is printed as
  it is, every other value as its \<^verbatim>\<open>repr\<close>. The \<^verbatim>\<open>repr\<close> of a string is quoted (with
  double quotes only when the string has a single quote and no double quote), with the
  quote, the backslash and the control characters escaped.
\<close>

definition str_int :: "int \<Rightarrow> string" where
  "str_int n = (if n < 0 then ''-'' @ str_nat (nat (- n)) else str_nat (nat n))"

fun join_sep :: "string \<Rightarrow> string list \<Rightarrow> string" where
  "join_sep sep [] = []"
| "join_sep sep [x] = x"
| "join_sep sep (x # y # ys) = x @ sep @ join_sep sep (y # ys)"

definition repr_quote :: "string \<Rightarrow> char" where
  "repr_quote s = (if CHR 0x27 \<in> set s \<and> CHR 0x22 \<notin> set s then CHR 0x22 else CHR 0x27)"

definition repr_char :: "char \<Rightarrow> char \<Rightarrow> string" where
  "repr_char q c =
     (if c = q \<or> c = CHR 0x5C then [CHR 0x5C, c]
      else if c = CHR 0x09 then [CHR 0x5C, CHR ''t'']
      else if c = CHR 0x0A then [CHR 0x5C, CHR ''n'']
      else if c = CHR 0x0D then [CHR 0x5C, CHR ''r'']
      else if (of_char c :: nat) < 32 \<or> c = CHR 0x7F
      then [CHR 0x5C, CHR ''x'', ''0123456789abcdef'' ! (of_char c div 16),
            ''0123456789abcdef'' ! (of_char c mod 16)]
      else [c])"

definition repr_str :: "string \<Rightarrow> string" where
  "repr_str s = repr_quote s # concat (map (repr_char (repr_quote s)) s) @ [repr_quote s]"

fun py_repr :: "json \<Rightarrow> string" where
  "py_repr JNull = ''None''"
| "py_repr (JBool b) = (if b then ''True'' else ''False'')"
| "py_repr (JNum n) = str_int n"
| "py_repr (JStr s) = repr_str s"
| "py_repr (JList xs) = ''['' @ join_sep '', '' (map py_repr xs) @ '']''"
| "py_repr (JObj kvs) =
     ''{'' @ join_sep '', '' (map (\<lambda>kv. repr_str (fst kv) @ '': '' @ py_repr (snd kv)) kvs)
     @ ''}''"

definition py_str :: "json \<Rightarrow> string" where
  "py_str j = (case j of JStr s \<Rightarrow> s | _ \<Rightarrow> py_repr j)"

definition type_name :: "json \<Rightarrow> string" where
  "type_name j =
     (case j of
        JNull \<Rightarrow> ''NoneType'' | JBool b \<Rightarrow> ''bool'' | JNum n \<Rightarrow> ''int''
      | JStr s \<Rightarrow> ''str'' | JList xs \<Rightarrow> ''list'' | JObj kvs \<Rightarrow> ''dict'')"

text \<open>
  \<^verbatim>\<open>x[k]\<close> for a string key \<^verbatim>\<open>k\<close>: a dict gives the value or raises \<^verbatim>\<open>KeyError\<close>, every
  other value raises \<^verbatim>\<open>TypeError\<close> (the messages are CPython's, from version 3.11 on).
\<close>

definition json_subscript :: "json \<Rightarrow> string \<Rightarrow> exn + json" where
  "json_subscript j k =
     (case j of
        JObj d \<Rightarrow>
          (case map_of d k of
             None \<Rightarrow> Inl (Exn KeyError ([CHR 0x27] @ k @ [CHR 0x27]))
           | Some v \<Rightarrow> Inr v)
      | JStr s \<Rightarrow>
          Inl (Exn TypeError (''string indices must be integers, not 'str'' @ [CHR 0x27]))
      | JList xs \<Rightarrow>
          Inl (Exn TypeError ''list indices must be integers or slices, not str'')
      | _ \<Rightarrow>
          Inl (Exn TypeError ([CHR 0x27] @ type_name j @ [CHR 0x27]
                               @ '' object is not subscriptable'')))"

text \<open>\<^verbatim>\<open>x.upper()\<close>: only a string has the method.\<close>

definition py_upper :: "json \<Rightarrow> exn + string" where
  "py_upper j =
     (case j of
        JStr s \<Rightarrow> Inr (upper s)
      | _ \<Rightarrow>
          Inl (Exn AttributeError ([CHR 0x27] @ type_name j @ [CHR 0x27]
                                    @ '' object has no attribute 'upper'' @ [CHR 0x27])))"


section \<open>DebateModel\<close>

text \<open>
  The loop \<^verbatim>\<open>for i, entry in enumerate(context[-3:])\<close> of \<^verbatim>\<open>generate_response\<close>: the index,
  the entries still to come, and the text \<^verbatim>\<open>context_formatted\<close> built so far.
\<close>

fun format_context :: "nat \<Rightarrow> entry list \<Rightarrow> string \<Rightarrow> exn + string" where
  "format_context i [] context_formatted = Inr context_formatted"
| "format_context i (JObj d # es) context_formatted =
     (case json_subscript (JObj d) ''side'' of
        Inl e \<Rightarrow> Inl e
      | Inr side_value \<Rightarrow>
          (case py_upper side_value of
             Inl e \<Rightarrow> Inl e
           | Inr side \<Rightarrow>
               (case json_subscript (JObj d) ''text'' of
                  Inl e \<Rightarrow> Inl e
                | Inr text \<Rightarrow>
                    format_context (i + 1) es
                      (context_formatted @ side @ '': '' @ py_str text @ ''\<newline>''))))"
| "format_context i (entry # es) context_formatted =
     format_context (i + 1) es
       (context_formatted @ ''Point '' @ str_nat (i + 1) @ '': '' @ py_str entry @ ''\<newline>'')"

definition response_prompt :: "string \<Rightarrow> string \<Rightarrow> string \<Rightarrow> string" where
  "response_prompt topic stance context_formatted =
     ''You are participating in a casual debate about: '' @ topic @ ''\<newline>''
     @ ''Your stance is: '' @ upper stance @ ''\<newline>\<newline>''
     @ ''Previous discussion:\<newline>'' @ context_formatted @ ''\<newline>\<newline>''
     @ ''Respond in a conversational way by:\<newline>''
     @ ''1. Using natural, casual language\<newline>''
     @ ''2. Keeping it brief (1-2 sentences)\<newline>''
     @ ''3. Making it feel like a real-time discussion\<newline>''
     @ ''4. Starting with phrases like 'Actually...', 'I see your point, but...', 'Let me add...'\<newline>''
     @ ''5. Being engaging but concise\<newline>\<newline>''
     @ ''Keep your response under 30 words and make it feel like a natural conversation.''"

text \<open>
  \<^verbatim>\<open>DebateModel.generate_response\<close>. The context is \<open>None\<close> for JSON \<^verbatim>\<open>null\<close>; \<^verbatim>\<open>if context:\<close>
  skips the loop for \<^verbatim>\<open>null\<close> and for the empty list. The reply is returned whole.
\<close>

definition generate_response ::
  "backend \<Rightarrow> string \<Rightarrow> string \<Rightarrow> entry list option \<Rightarrow> string \<Rightarrow> log \<Rightarrow> (exn + dict) \<times> log" where
  "generate_response be model_name topic context stance lg =
     (if topic = [] \<or> stance = []
      then (Inl (Exn ValueError ''Topic and stance are required''), lg)
      else if stance \<notin> set [''for'', ''against'']
      then (Inl (Exn ValueError (''Stance must be either 'for' or 'against'' @ [CHR 0x27])), lg)
      else
        (case (case context of
                 None \<Rightarrow> Inr []
               | Some c \<Rightarrow> if c \<noteq> [] then format_context 0 (last_n 3 c) [] else Inr []) of
           Inl e \<Rightarrow> (Inl e, lg)
         | Inr context_formatted \<Rightarrow>
             (case make_api_request be model_name
                     (response_prompt topic stance context_formatted) lg of
                (Inl e, lg') \<Rightarrow> (Inl e, lg')
              | (Inr response, lg') \<Rightarrow>
                  (if (case map_of response ''response'' of None \<Rightarrow> True | Some t \<Rightarrow> t = [])
                   then (Inl (Exn ValueError ''Empty response from model''), lg')
                   else (Inr response, lg')))))"


section \<open>ModeratorModel\<close>

record intervention =
  needs_intervention :: bool
  i_reason :: string

text \<open>
  The loop that fills \<^verbatim>\<open>formatted_history\<close>, the same in the three methods; the caller
  passes \<^verbatim>\<open>debate_history[-3:]\<close> or \<^verbatim>\<open>debate_history[-5:]\<close>. The entries are whatever the
  caller hands over: a dict takes the first branch, any other value is printed by
  \<^verbatim>\<open>str(entry)\<close>.
\<close>

fun format_history :: "entry list \<Rightarrow> exn + string list" where
  "format_history [] = Inr []"
| "format_history (JObj d # es) =
     (case json_subscript (JObj d) ''side'' of
        Inl e \<Rightarrow> Inl e
      | Inr side_value \<Rightarrow>
          (case py_upper side_value of
             Inl e \<Rightarrow> Inl e
           | Inr side \<Rightarrow>
               (case json_subscript (JObj d) ''text'' of
                  Inl e \<Rightarrow> Inl e
                | Inr text \<Rightarrow>
                    (case format_history es of
                       Inl e \<Rightarrow> Inl e
                     | Inr rest \<Rightarrow> Inr ((side @ '': '' @ py_str text) # rest)))))"
| "format_history (entry # es) =
     (case format_history es of
        Inl e \<Rightarrow> Inl e
      | Inr rest \<Rightarrow> Inr (py_str entry # rest))"

definition evaluate_prompt :: "string \<Rightarrow> string \<Rightarrow> string \<Rightarrow> string" where
  "evaluate_prompt topic current_argument context_str =
     ''As a debate moderator, evaluate the following argument in the context of the debate:\<newline>\<newline>''
     @ ''Topic: '' @ topic @ ''\<newline>''
     @ ''Current Argument: '' @ current_argument @ ''\<newline>\<newline>''
     @ ''Previous Discussion:\<newline>'' @ context_str @ ''\<newline>\<newline>''
     @ ''Analyze and return a JSON-like response with these keys:\<newline>''
     @ ''1. is_on_topic (true/false)\<newline>''
     @ ''2. is_circular (true/false)\<newline>''
     @ ''3. is_logical (true/false)\<newline>''
     @ ''4. feedback (brief moderator feedback)''"

definition summary_prompt :: "string \<Rightarrow> string \<Rightarrow> string" where
  "summary_prompt topic context_str =
     ''Provide a brief, impartial summary of the following debate:\<newline>\<newline>''
     @ ''Topic: '' @ topic @ ''\<newline>\<newline>''
     @ ''Debate History:\<newline>'' @ context_str @ ''\<newline>\<newline>''
     @ ''Focus on:\<newline>''
     @ ''1. Key arguments from both sides\<newline>''
     @ ''2. Main points of contention\<newline>''
     @ ''3. Current state of the debate\<newline>\<newline>''
     @ ''Keep the summary concise and neutral.''"

definition intervene_prompt :: "string \<Rightarrow> string \<Rightarrow> string" where
  "intervene_prompt topic context_str =
     ''Analyze this debate and determine if moderator intervention is needed:\<newline>\<newline>''
     @ ''Topic: '' @ topic @ ''\<newline>\<newline>''
     @ ''Recent Discussion:\<newline>'' @ context_str @ ''\<newline>\<newline>''
     @ ''Check for:\<newline>''
     @ ''1. Off-topic discussion\<newline>''
     @ ''2. Circular arguments\<newline>''
     @ ''3. Logical fallacies\<newline>''
     @ ''4. Need for summary\<newline>\<newline>''
     @ ''Return true if intervention needed, false if not, and include reason.''"

text \<open>\<^verbatim>\<open>ModeratorModel.evaluate_response\<close>: the reply is passed through whole.\<close>

definition evaluate_response ::
  "backend \<Rightarrow> string \<Rightarrow> string \<Rightarrow> string \<Rightarrow> entry list \<Rightarrow> log \<Rightarrow> (exn + dict) \<times> log" where
  "evaluate_response be model_name topic current_argument debate_history lg =
     (if current_argument = []
      then (Inl (Exn ValueError ''No argument provided for evaluation''), lg)
      else
        (case format_history (last_n 3 debate_history) of
           Inl e \<Rightarrow> (Inl e, lg)
         | Inr formatted_history \<Rightarrow>
             make_api_request be model_name
               (evaluate_prompt topic current_argument (join_nl formatted_history)) lg))"

text \<open>\<^verbatim>\<open>ModeratorModel.generate_summary\<close>.\<close>

definition generate_summary ::
  "backend \<Rightarrow> string \<Rightarrow> string \<Rightarrow> entry list \<Rightarrow> log \<Rightarrow> (exn + string) \<times> log" where
  "generate_summary be model_name topic debate_history lg =
     (if debate_history = []
      then (Inl (Exn ValueError ''No debate history provided for summary''), lg)
      else
        (case format_history (last_n 5 debate_history) of
           Inl e \<Rightarrow> (Inl e, lg)
         | Inr formatted_history \<Rightarrow>
             request_text be model_name
               (summary_prompt topic (join_nl formatted_history)) lg))"

text \<open>
  \<^verbatim>\<open>ModeratorModel.should_intervene\<close>. The early return and the formatting loop stand
  before the \<^verbatim>\<open>try\<close> block; the request and the parsing of the reply stand inside it.
\<close>

definition should_intervene ::
  "backend \<Rightarrow> string \<Rightarrow> string \<Rightarrow> entry list \<Rightarrow> log \<Rightarrow> (exn + intervention) \<times> log" where
  "should_intervene be model_name topic debate_history lg =
     (if debate_history = []
      then (Inr \<lparr>needs_intervention = False, i_reason = ''Debate hasn't started yet''\<rparr>, lg)
      else
        (case format_history (last_n 3 debate_history) of
           Inl e \<Rightarrow> (Inl e, lg)
         | Inr formatted_history \<Rightarrow>
             (case request_text be model_name
                     (intervene_prompt topic (join_nl formatted_history)) lg of
                (Inr text, lg') \<Rightarrow>
                  (let result = lower text
                   in (Inr \<lparr>needs_intervention = str_contains ''true'' result,
                             i_reason = result\<rparr>, lg'))
              | (Inl e, lg') \<Rightarrow>
                  (Inr \<lparr>needs_intervention = False,
                         i_reason = ''Error in intervention check''\<rparr>, lg'))))"


section \<open>The route \<^verbatim>\<open>/debate_round\<close>\<close>

text \<open>
  The configuration gives one model name per persona. The body of a request to
  \<^verbatim>\<open>/debate_round\<close> has the keys \<^verbatim>\<open>'topic'\<close> and \<^verbatim>\<open>'current_side'\<close> (\<open>None\<close>: the key is
  missing) and may have \<^verbatim>\<open>'debate_history'\<close> (\<open>None\<close>: JSON \<^verbatim>\<open>null\<close>; a missing key is the
  empty list, the default of \<^verbatim>\<open>data.get\<close>). The topic and the side are text; a \<^verbatim>\<open>null\<close>
  topic is rejected by \<^verbatim>\<open>generate_response\<close> as the empty topic is, and a \<^verbatim>\<open>null\<close> side
  by the route as any other text than \<^verbatim>\<open>'for'\<close> and \<^verbatim>\<open>'against'\<close> is. The history is a list
  of entries.
\<close>

record config =
  FILTER_MODEL :: string
  PROMPT_MODEL :: string
  DEBATE_MODEL :: string
  MODERATOR_MODEL :: string

record round_request =
  req_topic :: "string option"
  req_debate_history :: "entry list option"
  req_current_side :: "string option"

text \<open>
  What the route answers: an error with its HTTP status and message, or one of the two
  outcomes of a round, with the fields of the JSON body.
\<close>

datatype response =
    ErrorResponse nat string
  | ModeratorIntervention (argument: string) (message: string) (summary: string)
      (next_side: string)
  | Success (argument: string) (evaluation: dict) (next_side: string)
      (debate_history: "entry list")

text \<open>
  \<^verbatim>\<open>[h['text'] for h in debate_history]\<close>: the value under \<^verbatim>\<open>'text'\<close> of each entry, whatever
  JSON value it is; the first entry that cannot be subscripted so raises.
\<close>

fun texts_of :: "entry list \<Rightarrow> exn + json list" where
  "texts_of [] = Inr []"
| "texts_of (h # hs) =
     (case json_subscript h ''text'' of
        Inl e \<Rightarrow> Inl e
      | Inr t \<Rightarrow> (case texts_of hs of Inl e \<Rightarrow> Inl e | Inr ts \<Rightarrow> Inr (t # ts)))"

text \<open>
  The body of \<^verbatim>\<open>debate_round\<close>, before the decorator. The three calls of the moderator each
  receive the list of the \<^verbatim>\<open>'text'\<close> values, computed anew as in the source.
\<close>

definition debate_round_body ::
  "backend \<Rightarrow> config \<Rightarrow> round_request \<Rightarrow> log \<Rightarrow> (exn + response) \<times> log" where
  "debate_round_body be cfg data lg =
     (case (req_topic data, req_current_side data) of
        (Some topic, Some current_side) \<Rightarrow>
          (if current_side \<notin> set [''for'', ''against'']
           then (Inr (ErrorResponse 400 ''Invalid debate side specified''), lg)
           else
             (case generate_response be (DEBATE_MODEL cfg) topic (req_debate_history data)
                     current_side lg of
                (Inl e, lg1) \<Rightarrow> (Inl e, lg1)
              | (Inr response, lg1) \<Rightarrow>
                  (case subscript response ''response'' of
                     Inl e \<Rightarrow> (Inl e, lg1)
                   | Inr current_argument \<Rightarrow>
                       (let history =
                              (case req_debate_history data of None \<Rightarrow> [] | Some h \<Rightarrow> h)
                              @ [JObj [(''side'', JStr current_side), (''text'', JStr current_argument)]]
                        in
                        (case texts_of history of
                           Inl e \<Rightarrow> (Inl e, lg1)
                         | Inr texts \<Rightarrow>
                             (case should_intervene be (MODERATOR_MODEL cfg) topic
                                     texts lg1 of
                                (Inl e, lg2) \<Rightarrow> (Inl e, lg2)
                              | (Inr moderator_check, lg2) \<Rightarrow>
                                  (if needs_intervention moderator_check
                                   then
                                     (case texts_of history of
                                        Inl e \<Rightarrow> (Inl e, lg2)
                                      | Inr texts2 \<Rightarrow>
                                          (case generate_summary be (MODERATOR_MODEL cfg) topic
                                                  texts2 lg2 of
                                             (Inl e, lg3) \<Rightarrow> (Inl e, lg3)
                                           | (Inr summ, lg3) \<Rightarrow>
                                               (Inr (ModeratorIntervention current_argument
                                                      (i_reason moderator_check) summ
                                                      (if current_side = ''against'' then ''for''
                                                       else ''against'')), lg3)))
                                   else
                                     (case texts_of history of
                                        Inl e \<Rightarrow> (Inl e, lg2)
                                      | Inr texts3 \<Rightarrow>
                                          (case evaluate_response be (MODERATOR_MODEL cfg) topic
                                                  current_argument texts3 lg2 of
                                             (Inl e, lg3) \<Rightarrow> (Inl e, lg3)
                                           | (Inr eval, lg3) \<Rightarrow>
                                               (Inr (Success current_argument eval
                                                      (if current_side = ''against'' then ''for''
                                                       else ''against'')
                                                      history), lg3))))))))))
      | _ \<Rightarrow> (Inr (ErrorResponse 400 ''Missing required debate information''), lg))"

text \<open>
  The decorator \<^verbatim>\<open>handle_errors\<close>: an instance of \<^verbatim>\<open>requests.exceptions.ConnectionError\<close>
  becomes the answer 503, any other exception the answer 500.
\<close>

definition handle_errors :: "exn + response \<Rightarrow> response" where
  "handle_errors r =
     (case r of
        Inr resp \<Rightarrow> resp
      | Inl e \<Rightarrow>
          (if is_instance (cls e) RequestsConnectionError
           then ErrorResponse 503
                  ''AI service is currently unavailable. Please ensure Ollama is running.''
           else ErrorResponse 500 ''An unexpected error occurred. Please try again.''))"

definition debate_round ::
  "backend \<Rightarrow> config \<Rightarrow> round_request \<Rightarrow> log \<Rightarrow> response \<times> log" where
  "debate_round be cfg data lg =
     (case debate_round_body be cfg data lg of (r, lg') \<Rightarrow> (handle_errors r, lg'))"

section \<open>Notions of the specification\<close>

text \<open>
  The parsing algorithm in the specification's words, to be compared with
  \<^verbatim>\<open>parse_stances\<close>: split the response into non-empty trimmed lines; a line carries a
  label when its upper-cased text starts with the label and a colon or with the label
  and a blank, and the remainder after the label is the statement (a later line
  replaces an earlier one); if no statement was extracted (both are empty) and there
  are at least two lines, the first two lines are the statements; the residual label
  tokens are stripped from both.
\<close>

definition spec_has_label :: "string \<Rightarrow> string \<Rightarrow> bool" where
  "spec_has_label label line =
     (prefix (label @ '':'') (upper line) \<or> prefix (label @ '' '') (upper line))"

definition spec_statement :: "string \<Rightarrow> string list \<Rightarrow> string" where
  "spec_statement label lines =
     (let matching = filter (spec_has_label label) lines in
      if matching = [] then [] else strip (drop (length label + 1) (last matching)))"

definition spec_strip_labels :: "string \<Rightarrow> string \<Rightarrow> string" where
  "spec_strip_labels label s = strip (str_remove label (str_remove (label @ '':'') s))"

definition spec_parse_stances :: "string \<Rightarrow> string \<times> string" where
  "spec_parse_stances result =
     (let lines = filter (\<lambda>l. l \<noteq> []) (map strip (split_nl result));
          f = spec_statement ''FOR'' lines;
          a = spec_statement ''AGAINST'' lines
      in if f = [] \<and> a = [] \<and> 2 \<le> length lines
         then (spec_strip_labels ''FOR'' (lines ! 0), spec_strip_labels ''AGAINST'' (lines ! 1))
         else (spec_strip_labels ''FOR'' f, spec_strip_labels ''AGAINST'' a))"


text \<open>
  The side of an entry, and histories in which successive entries have different
  sides.
\<close>

definition entry_side :: "entry \<Rightarrow> json option" where
  "entry_side e = (case e of JObj d \<Rightarrow> map_of d ''side'' | _ \<Rightarrow> None)"

fun alternates :: "entry list \<Rightarrow> bool" where
  "alternates (x # y # zs) = (entry_side x \<noteq> entry_side y \<and> alternates (y # zs))"
| "alternates _ = True"


section \<open>Facts about the string operations\<close>

lemma str_contains_iff: "str_contains sub s \<longleftrightarrow> (\<exists>ps ss. s = ps @ sub @ ss)"
proof (induction s)
  case Nil
  then show ?case by auto
next
  case (Cons c cs)
  show ?case
  proof
    assume "str_contains sub (c # cs)"
    then consider "prefix sub (c # cs)" | "str_contains sub cs" by auto
    then show "\<exists>ps ss. c # cs = ps @ sub @ ss"
    proof cases
      case 1
      then obtain ss where "c # cs = sub @ ss" by (auto simp: prefix_def)
      then have "c # cs = [] @ sub @ ss" by simp
      then show ?thesis by blast
    next
      case 2
      with Cons.IH obtain ps ss where "cs = ps @ sub @ ss" by blast
      then have "c # cs = (c # ps) @ sub @ ss" by simp
      then show ?thesis by blast
    qed
  next
    assume "\<exists>ps ss. c # cs = ps @ sub @ ss"
    then obtain ps ss where eq: "c # cs = ps @ sub @ ss" by blast
    show "str_contains sub (c # cs)"
    proof (cases ps)
      case Nil
      with eq have "prefix sub (c # cs)" by (simp add: prefix_def)
      then show ?thesis by simp
    next
      case (Cons p ps')
      with eq have "cs = ps' @ sub @ ss" by simp
      with Cons.IH have "str_contains sub cs" by blast
      then show ?thesis by simp
    qed
  qed
qed

lemma strip_nonempty: "strip s \<noteq> [] \<Longrightarrow> s \<noteq> []"
  by (auto simp: strip_def)


section \<open>The request layer\<close>

lemma request_text_raises:
  "be (length lg) m p = Raises e \<Longrightarrow> \<exists>x. request_text be m p lg = (Inl x, lg @ [(m, p)])"
  by (auto simp: request_text_def make_api_request_def)

lemma request_text_missing:
  "be (length lg) m p = Returns d \<Longrightarrow> map_of d ''response'' = None \<Longrightarrow>
   \<exists>x. request_text be m p lg = (Inl x, lg @ [(m, p)])"
  by (auto simp: request_text_def make_api_request_def subscript_def)

lemma request_text_returns:
  "be (length lg) m p = Returns d \<Longrightarrow> map_of d ''response'' = Some t \<Longrightarrow>
   request_text be m p lg = (Inr t, lg @ [(m, p)])"
  by (auto simp: request_text_def make_api_request_def subscript_def)





section \<open>The topic filter fails closed\<close>

text \<open>
  Claim C1, as amended. For every topic that is not empty after trimming,
  \<^verbatim>\<open>filter_topic\<close> never raises, whatever the backend does; and when the request path
  fails (the request raises an exception of any class, or the reply has no
  \<^verbatim>\<open>'response'\<close> field), the result is \<^verbatim>\<open>is_appropriate = False\<close> with the reason
  \<^verbatim>\<open>'Unable to verify topic appropriateness'\<close>, after exactly one request.
\<close>

theorem filter_topic_fail_closed:
  assumes "strip topic \<noteq> []"
  shows "(\<exists>r. fst (filter_topic be m topic lg) = Inr r)
       \<and> ((\<exists>e. be (length lg) m (filter_prompt topic) = Raises e)
            \<or> (\<exists>d. be (length lg) m (filter_prompt topic) = Returns d
                    \<and> map_of d ''response'' = None)
          \<longrightarrow> filter_topic be m topic lg =
                (Inr \<lparr>is_appropriate = False,
                       f_reason = ''Unable to verify topic appropriateness''\<rparr>,
                 lg @ [(m, filter_prompt topic)]))"
proof -
  from assms have ne: "topic \<noteq> []" by (rule strip_nonempty)
  have total: "\<exists>r. fst (filter_topic be m topic lg) = Inr r"
    using assms ne
    by (cases "request_text be m (filter_prompt topic) lg")
       (auto simp: filter_topic_def Let_def split: sum.splits)
  have closed: "filter_topic be m topic lg =
                (Inr \<lparr>is_appropriate = False,
                       f_reason = ''Unable to verify topic appropriateness''\<rparr>,
                 lg @ [(m, filter_prompt topic)])"
    if "\<exists>x. request_text be m (filter_prompt topic) lg = (Inl x, lg @ [(m, filter_prompt topic)])"
    using that assms ne by (auto simp: filter_topic_def)
  show ?thesis
    using total closed request_text_raises request_text_missing by blast
qed

theorem filter_topic_fail_closed_witness:
  "filter_topic (\<lambda>n m p. Raises (Exn RequestsConnectionError ''Connection refused''))
        ''llama3.2:3b'' ''Should remote work be standard?'' []
     = (Inr \<lparr>is_appropriate = False, f_reason = ''Unable to verify topic appropriateness''\<rparr>,
        [(''llama3.2:3b'', filter_prompt ''Should remote work be standard?'')])"
  using filter_topic_fail_closed [where topic = "''Should remote work be standard?''"
      and be = "\<lambda>n m p. Raises (Exn RequestsConnectionError ''Connection refused'')"
      and lg = "[]" and m = "''llama3.2:3b''"]
  by (simp add: strip_def is_space_def)

text \<open>
  The claim as stated, for every non-empty topic, fails on a topic of blanks: the check
  before the \<^verbatim>\<open>try\<close> block raises \<^verbatim>\<open>ValueError\<close>, with a backend that fails as well.
\<close>

theorem filter_topic_blank_counterexample:
  "'' '' \<noteq> []
   \<and> filter_topic (\<lambda>n m p. Raises (Exn RequestsConnectionError ''Connection refused''))
        ''llama3.2:3b'' '' '' []
     = (Inl (Exn ValueError ''Empty topic provided''), [])"
  by (simp add: filter_topic_def strip_def is_space_def)

lemma filter_topic_returns:
  assumes "strip topic \<noteq> []"
      and "be (length lg) m (filter_prompt topic) = Returns d"
      and "map_of d ''response'' = Some rtext"
  shows "\<exists>reason. filter_topic be m topic lg =
           (Inr \<lparr>is_appropriate = str_contains ''true'' (lower (strip rtext)), f_reason = reason\<rparr>,
            lg @ [(m, filter_prompt topic)])"
  using assms strip_nonempty [OF assms(1)] request_text_returns [where be = be and lg = lg, OF assms(2,3)]
  by (simp add: filter_topic_def Let_def)

lemma should_intervene_returns:
  assumes "hist \<noteq> []"
      and "format_history (last_n 3 hist) = Inr fh"
      and "be (length lg) m (intervene_prompt topic (join_nl fh)) = Returns d"
      and "map_of d ''response'' = Some rtext"
  shows "should_intervene be m topic hist lg =
           (Inr \<lparr>needs_intervention = str_contains ''true'' (lower rtext), i_reason = lower rtext\<rparr>,
            lg @ [(m, intervene_prompt topic (join_nl fh))])"
  using assms request_text_returns [where be = be and lg = lg, OF assms(3,4)]
  by (simp add: should_intervene_def Let_def)

section \<open>Verdicts by substring\<close>

text \<open>
  Claim C8. When the backend replies with a text, the verdict of \<^verbatim>\<open>filter_topic\<close> is true
  exactly when \<^verbatim>\<open>'true'\<close> occurs somewhere in the trimmed, lower-cased text. The word
  \<^verbatim>\<open>'false'\<close> plays no part: with both words in the text the verdict is true, with
  neither it is false. \<^verbatim>\<open>should_intervene\<close> decides \<^verbatim>\<open>needs_intervention\<close> by the same
  rule on the lower-cased text (not trimmed).
\<close>

theorem verdict_is_true_substring:
  "(strip topic \<noteq> [] \<and> be (length lg) m (filter_prompt topic) = Returns d
      \<and> map_of d ''response'' = Some rtext \<longrightarrow>
      (\<exists>r. fst (filter_topic be m topic lg) = Inr r
         \<and> (is_appropriate r \<longleftrightarrow> (\<exists>ps ss. lower (strip rtext) = ps @ ''true'' @ ss))
         \<and> (str_contains ''true'' (lower (strip rtext))
              \<and> str_contains ''false'' (lower (strip rtext)) \<longrightarrow> is_appropriate r)
         \<and> (\<not> str_contains ''true'' (lower (strip rtext))
              \<and> \<not> str_contains ''false'' (lower (strip rtext)) \<longrightarrow> \<not> is_appropriate r)))
   \<and> (hist \<noteq> [] \<and> format_history (last_n 3 hist) = Inr fh
      \<and> be (length lg') m' (intervene_prompt topic' (join_nl fh)) = Returns d'
      \<and> map_of d' ''response'' = Some rtext' \<longrightarrow>
      (\<exists>r. fst (should_intervene be m' topic' hist lg') = Inr r
         \<and> (needs_intervention r \<longleftrightarrow> (\<exists>ps ss. lower rtext' = ps @ ''true'' @ ss))))"
proof (intro conjI impI)
  assume a: "strip topic \<noteq> [] \<and> be (length lg) m (filter_prompt topic) = Returns d
      \<and> map_of d ''response'' = Some rtext"
  then obtain reason where "filter_topic be m topic lg =
           (Inr \<lparr>is_appropriate = str_contains ''true'' (lower (strip rtext)), f_reason = reason\<rparr>,
            lg @ [(m, filter_prompt topic)])"
    using filter_topic_returns by blast
  then show "\<exists>r. fst (filter_topic be m topic lg) = Inr r
         \<and> (is_appropriate r \<longleftrightarrow> (\<exists>ps ss. lower (strip rtext) = ps @ ''true'' @ ss))
         \<and> (str_contains ''true'' (lower (strip rtext))
              \<and> str_contains ''false'' (lower (strip rtext)) \<longrightarrow> is_appropriate r)
         \<and> (\<not> str_contains ''true'' (lower (strip rtext))
              \<and> \<not> str_contains ''false'' (lower (strip rtext)) \<longrightarrow> \<not> is_appropriate r)"
    by (simp add: str_contains_iff)
next
  assume a: "hist \<noteq> [] \<and> format_history (last_n 3 hist) = Inr fh
      \<and> be (length lg') m' (intervene_prompt topic' (join_nl fh)) = Returns d'
      \<and> map_of d' ''response'' = Some rtext'"
  then have "should_intervene be m' topic' hist lg' =
           (Inr \<lparr>needs_intervention = str_contains ''true'' (lower rtext'), i_reason = lower rtext'\<rparr>,
            lg' @ [(m', intervene_prompt topic' (join_nl fh))])"
    using should_intervene_returns by blast
  then show "\<exists>r. fst (should_intervene be m' topic' hist lg') = Inr r
         \<and> (needs_intervention r \<longleftrightarrow> (\<exists>ps ss. lower rtext' = ps @ ''true'' @ ss))"
    by (simp add: str_contains_iff)
qed

theorem verdict_is_true_substring_witness:
  "(\<exists>r. fst (filter_topic (\<lambda>n m p. Returns [(''response'', '' It is TRUE, not false.  '')])
             ''llama3.2:3b'' ''Cats'' []) = Inr r \<and> is_appropriate r)
   \<and> (\<exists>r. fst (should_intervene (\<lambda>n m p. Returns [(''response'', ''False. All fine.'')])
             ''llama3.2:3b'' ''Cats'' [JStr ''Cats purr.''] []) = Inr r \<and> \<not> needs_intervention r)"
proof -
  have "str_contains ''true'' (lower ''It is TRUE, not false.'')"
    by (simp add: lower_def lower_char_def)
  then have t: "\<exists>ps ss. lower ''It is TRUE, not false.'' = ps @ ''true'' @ ss"
    using str_contains_iff [of "''true''" "lower ''It is TRUE, not false.''"] by blast
  have "\<not> str_contains ''true'' (lower ''False. All fine.'')"
    by (simp add: lower_def lower_char_def)
  then have f: "\<not> (\<exists>ps ss. lower ''False. All fine.'' = ps @ ''true'' @ ss)"
    using str_contains_iff [of "''true''" "lower ''False. All fine.''"] by blast
  show ?thesis
    using verdict_is_true_substring [where topic = "''Cats''" and lg = "[]" and m = "''llama3.2:3b''"
        and be = "\<lambda>n m p. Returns [(''response'', '' It is TRUE, not false.  '')]"
        and d = "[(''response'', '' It is TRUE, not false.  '')]"
        and rtext = "'' It is TRUE, not false.  ''"
        and hist = "[]"]
      verdict_is_true_substring [where topic = "[]" and hist = "[JStr ''Cats purr.'']" and fh = "[''Cats purr.'']"
        and lg' = "[]" and m' = "''llama3.2:3b''" and topic' = "''Cats''"
        and be = "\<lambda>n m p. Returns [(''response'', ''False. All fine.'')]"
        and d' = "[(''response'', ''False. All fine.'')]"
        and rtext' = "''False. All fine.''"]
      t f
    by (auto simp: strip_def is_space_def last_n_def py_str_def)
qed

section \<open>The intervention check fails soft\<close>

text \<open>
  Claim C5, as amended. On an empty history \<^verbatim>\<open>should_intervene\<close> returns
  \<^verbatim>\<open>needs_intervention = False\<close> with the reason \<^verbatim>\<open>"Debate hasn't started yet"\<close> and sends
  no request (the log is unchanged). On a non-empty history whose last three entries
  format, so that the request is sent, a failure of the request path (an exception of
  any class, or a reply without a \<^verbatim>\<open>'response'\<close> field) is not propagated: the result is
  \<^verbatim>\<open>needs_intervention = False\<close> with the reason \<^verbatim>\<open>"Error in intervention check"\<close>. Both
  reasons start with a capital letter.
\<close>

theorem should_intervene_fail_soft:
  "should_intervene be m topic [] lg =
     (Inr \<lparr>needs_intervention = False, i_reason = ''Debate hasn't started yet''\<rparr>, lg)
   \<and> (hist \<noteq> [] \<and> format_history (last_n 3 hist) = Inr fh
      \<and> ((\<exists>e. be (length lg) m (intervene_prompt topic (join_nl fh)) = Raises e)
          \<or> (\<exists>d. be (length lg) m (intervene_prompt topic (join_nl fh)) = Returns d
                  \<and> map_of d ''response'' = None))
      \<longrightarrow> should_intervene be m topic hist lg =
            (Inr \<lparr>needs_intervention = False, i_reason = ''Error in intervention check''\<rparr>,
             lg @ [(m, intervene_prompt topic (join_nl fh))]))"
proof (intro conjI impI)
  show "should_intervene be m topic [] lg =
     (Inr \<lparr>needs_intervention = False, i_reason = ''Debate hasn't started yet''\<rparr>, lg)"
    by (simp add: should_intervene_def)
next
  assume a: "hist \<noteq> [] \<and> format_history (last_n 3 hist) = Inr fh
      \<and> ((\<exists>e. be (length lg) m (intervene_prompt topic (join_nl fh)) = Raises e)
          \<or> (\<exists>d. be (length lg) m (intervene_prompt topic (join_nl fh)) = Returns d
                  \<and> map_of d ''response'' = None))"
  then have "\<exists>x. request_text be m (intervene_prompt topic (join_nl fh)) lg
                 = (Inl x, lg @ [(m, intervene_prompt topic (join_nl fh))])"
    using request_text_raises request_text_missing by blast
  with a show "should_intervene be m topic hist lg =
            (Inr \<lparr>needs_intervention = False, i_reason = ''Error in intervention check''\<rparr>,
             lg @ [(m, intervene_prompt topic (join_nl fh))])"
    by (auto simp: should_intervene_def)
qed

theorem should_intervene_fail_soft_witness:
  "should_intervene (\<lambda>n m p. Raises (Exn RequestsTimeout ''Read timed out''))
      ''llama3.2:3b'' ''Cats'' [JStr ''Cats purr.''] []
   = (Inr \<lparr>needs_intervention = False, i_reason = ''Error in intervention check''\<rparr>,
      [(''llama3.2:3b'', intervene_prompt ''Cats'' ''Cats purr.'')])"
  using should_intervene_fail_soft [where hist = "[JStr ''Cats purr.'']" and fh = "[''Cats purr.'']" and lg = "[]"
      and be = "\<lambda>n m p. Raises (Exn RequestsTimeout ''Read timed out'')"
      and m = "''llama3.2:3b''" and topic = "''Cats''"]
  by (simp add: last_n_def py_str_def)

text \<open>
  The reasons as the claim spells them, in lower case, are not the ones returned.
\<close>

theorem should_intervene_reason_counterexample:
  "fst (should_intervene (\<lambda>n m p. Raises (Exn RequestsTimeout ''Read timed out''))
          ''llama3.2:3b'' ''Cats'' [] [])
     \<noteq> Inr \<lparr>needs_intervention = False, i_reason = ''debate hasn't started yet''\<rparr>
   \<and> fst (should_intervene (\<lambda>n m p. Raises (Exn RequestsTimeout ''Read timed out''))
          ''llama3.2:3b'' ''Cats'' [JStr ''Cats purr.''] [])
     \<noteq> Inr \<lparr>needs_intervention = False, i_reason = ''error in intervention check''\<rparr>"
  by (simp add: should_intervene_def request_text_def make_api_request_def last_n_def
        is_instance_def py_str_def)

lemma request_text_log: "snd (request_text be m p lg) = lg @ [(m, p)]"
  by (auto simp: request_text_def make_api_request_def
           split: prod.splits sum.splits outcome.splits)

lemma retry_generate_stances_log:
  "snd (retry_generate_stances be m topic lg) = lg @ [(m, simple_prompt topic)]"
  by (auto simp: retry_generate_stances_def request_text_def make_api_request_def Let_def
           split: prod.splits sum.splits outcome.splits)

lemma retry_generate_stances_lines:
  assumes "be (length lg) m (simple_prompt topic) = Returns d"
      and "map_of d ''response'' = Some rtext"
      and "2 \<le> length (stripped_lines rtext)"
  shows "fst (retry_generate_stances be m topic lg)
           = Inr (stripped_lines rtext ! 0, stripped_lines rtext ! 1)"
  using assms(3) request_text_returns [where be = be and lg = lg, OF assms(1,2)]
  by (simp add: retry_generate_stances_def Let_def)

lemma retry_generate_stances_fails:
  assumes "\<forall>d rtext. be (length lg) m (simple_prompt topic) = Returns d
              \<longrightarrow> map_of d ''response'' = Some rtext \<longrightarrow> length (stripped_lines rtext) < 2"
  shows "fst (retry_generate_stances be m topic lg)
           = Inl (Exn ValueError ''Failed to generate debate stances even with retry'')"
proof (cases "be (length lg) m (simple_prompt topic)")
  case (Raises e)
  from request_text_raises [where be = be and lg = lg, OF this] show ?thesis
    by (auto simp: retry_generate_stances_def)
next
  case (Returns d)
  show ?thesis
  proof (cases "map_of d ''response''")
    case None
    from request_text_missing [where be = be and lg = lg, OF Returns None] show ?thesis
      by (auto simp: retry_generate_stances_def)
  next
    case (Some rtext)
    with assms Returns have "length (stripped_lines rtext) < 2" by blast
    with request_text_returns [where be = be and lg = lg, OF Returns Some] show ?thesis
      by (simp add: retry_generate_stances_def Let_def)
  qed
qed

lemma generate_stances_log:
  "\<exists>extra. snd (generate_stances be m topic lg) = lg @ extra
     \<and> extra \<in> {[], [(m, stances_prompt topic)],
                  [(m, stances_prompt topic), (m, simple_prompt topic)]}"
proof (cases "topic = [] \<or> length (strip topic) = 0")
  case True
  then show ?thesis by (auto simp: generate_stances_def)
next
  case False
  obtain r where rt: "request_text be m (stances_prompt topic) lg
                        = (r, lg @ [(m, stances_prompt topic)])"
    using request_text_log [of be m "stances_prompt topic" lg]
    by (cases "request_text be m (stances_prompt topic) lg") auto
  show ?thesis
  proof (cases r)
    case (Inl e)
    with False rt show ?thesis by (auto simp: generate_stances_def)
  next
    case (Inr result)
    have "snd (retry_generate_stances be m topic (lg @ [(m, stances_prompt topic)]))
            = lg @ [(m, stances_prompt topic), (m, simple_prompt topic)]"
      by (simp add: retry_generate_stances_log)
    with False rt Inr show ?thesis
      by (auto simp: generate_stances_def Let_def split: prod.splits sum.splits)
  qed
qed

section \<open>Stance generation retries once\<close>

text \<open>
  Claim C3. On every execution path \<^verbatim>\<open>generate_stances\<close> sends at most two requests: none,
  the primary prompt alone, or the primary prompt followed by the simplified prompt
  once; there is no second retry. When the primary reply parses to a for-statement or
  an against-statement of fewer than 5 characters, exactly these two requests are sent;
  the result is the first two non-empty trimmed lines of the retry's reply when there
  are two, and otherwise (fewer lines, no \<^verbatim>\<open>'response'\<close> field, or an exception of the
  request) the call fails with the \<^verbatim>\<open>ValueError\<close> of the retry, wrapped once more by
  \<^verbatim>\<open>generate_stances\<close>.
\<close>

theorem generate_stances_single_retry:
  "(\<exists>extra. snd (generate_stances be m topic lg) = lg @ extra
      \<and> extra \<in> {[], [(m, stances_prompt topic)],
                   [(m, stances_prompt topic), (m, simple_prompt topic)]})
   \<and> (strip topic \<noteq> [] \<and> be (length lg) m (stances_prompt topic) = Returns d
       \<and> map_of d ''response'' = Some result
       \<and> (length (fst (parse_stances result)) < 5 \<or> length (snd (parse_stances result)) < 5)
      \<longrightarrow>
        snd (generate_stances be m topic lg)
          = lg @ [(m, stances_prompt topic), (m, simple_prompt topic)]
      \<and> (\<forall>d' retried.
            be (Suc (length lg)) m (simple_prompt topic) = Returns d'
            \<and> map_of d' ''response'' = Some retried \<and> 2 \<le> length (stripped_lines retried)
            \<longrightarrow> fst (generate_stances be m topic lg)
                  = Inr (stripped_lines retried ! 0, stripped_lines retried ! 1))
      \<and> ((\<forall>d' retried.
             be (Suc (length lg)) m (simple_prompt topic) = Returns d'
             \<longrightarrow> map_of d' ''response'' = Some retried
             \<longrightarrow> length (stripped_lines retried) < 2)
          \<longrightarrow> fst (generate_stances be m topic lg)
                = Inl (Exn ValueError (''Failed to generate debate stances: ''
                        @ ''Failed to generate debate stances even with retry''))))"
proof (intro conjI impI)
  show "\<exists>extra. snd (generate_stances be m topic lg) = lg @ extra
      \<and> extra \<in> {[], [(m, stances_prompt topic)],
                   [(m, stances_prompt topic), (m, simple_prompt topic)]}"
    by (rule generate_stances_log)
next
  assume a: "strip topic \<noteq> [] \<and> be (length lg) m (stances_prompt topic) = Returns d
       \<and> map_of d ''response'' = Some result
       \<and> (length (fst (parse_stances result)) < 5 \<or> length (snd (parse_stances result)) < 5)"
  let ?lg1 = "lg @ [(m, stances_prompt topic)]"
  from a have ne: "topic \<noteq> []" "strip topic \<noteq> []" using strip_nonempty by blast+
  from a have rt: "request_text be m (stances_prompt topic) lg = (Inr result, ?lg1)"
    using request_text_returns by blast
  have gs: "generate_stances be m topic lg =
          (case retry_generate_stances be m topic ?lg1 of
             (Inl e, lg'') \<Rightarrow> (Inl (stances_failure e), lg'')
           | (Inr retried, lg'') \<Rightarrow> (Inr retried, lg''))"
    using a ne rt by (auto simp: generate_stances_def Let_def)
  show "snd (generate_stances be m topic lg)
          = lg @ [(m, stances_prompt topic), (m, simple_prompt topic)]"
    using retry_generate_stances_log [of be m topic ?lg1]
    by (auto simp: gs split: prod.splits sum.splits)
  show "\<forall>d' retried.
            be (Suc (length lg)) m (simple_prompt topic) = Returns d'
            \<and> map_of d' ''response'' = Some retried \<and> 2 \<le> length (stripped_lines retried)
            \<longrightarrow> fst (generate_stances be m topic lg)
                  = Inr (stripped_lines retried ! 0, stripped_lines retried ! 1)"
  proof (intro allI impI)
    fix d' retried
    assume b: "be (Suc (length lg)) m (simple_prompt topic) = Returns d'
            \<and> map_of d' ''response'' = Some retried \<and> 2 \<le> length (stripped_lines retried)"
    then have "fst (retry_generate_stances be m topic ?lg1)
           = Inr (stripped_lines retried ! 0, stripped_lines retried ! 1)"
      using retry_generate_stances_lines [where be = be and lg = ?lg1 and m = m
          and topic = topic and d = d' and rtext = retried]
      by simp
    then show "fst (generate_stances be m topic lg)
                  = Inr (stripped_lines retried ! 0, stripped_lines retried ! 1)"
      by (auto simp: gs split: prod.splits sum.splits)
  qed
  show "fst (generate_stances be m topic lg)
                = Inl (Exn ValueError (''Failed to generate debate stances: ''
                        @ ''Failed to generate debate stances even with retry''))"
    if c: "\<forall>d' retried.
             be (Suc (length lg)) m (simple_prompt topic) = Returns d'
             \<longrightarrow> map_of d' ''response'' = Some retried
             \<longrightarrow> length (stripped_lines retried) < 2"
  proof -
    have "fst (retry_generate_stances be m topic ?lg1)
           = Inl (Exn ValueError ''Failed to generate debate stances even with retry'')"
      using c retry_generate_stances_fails [where be = be and lg = ?lg1 and m = m
          and topic = topic]
      by simp
    then show ?thesis
      by (auto simp: gs stances_failure_def split: prod.splits sum.splits)
  qed
qed


theorem generate_stances_single_retry_witness:
  "generate_stances
     (\<lambda>n m p. if n = 0 then Returns [(''response'', ''I cannot decide.'')]
               else Returns [(''response'', ''Cats are great.\<newline>\<newline>  Dogs are better. \<newline>'')])
     ''llama3.2:3b'' ''Cats'' []
   = (Inr (''Cats are great.'', ''Dogs are better.''),
      [(''llama3.2:3b'', stances_prompt ''Cats''), (''llama3.2:3b'', simple_prompt ''Cats'')])"
proof -
  have p: "parse_stances ''I cannot decide.'' = ([], [])"
    by code_simp
  have l: "stripped_lines ''Cats are great.\<newline>\<newline>  Dogs are better. \<newline>''
             = [''Cats are great.'', ''Dogs are better.'']"
    by code_simp
  have s: "strip ''Cats'' \<noteq> []"
    by (simp add: strip_def is_space_def)
  show ?thesis
    using generate_stances_single_retry [where topic = "''Cats''" and lg = "[]" and m = "''llama3.2:3b''"
        and be = "\<lambda>n m p. if n = 0 then Returns [(''response'', ''I cannot decide.'')]
               else Returns [(''response'', ''Cats are great.\<newline>\<newline>  Dogs are better. \<newline>'')]"
        and d = "[(''response'', ''I cannot decide.'')]"
        and result = "''I cannot decide.''"] p l s
    by (auto simp: prod_eq_iff)
qed

section \<open>Facts about trimming, splitting and removing\<close>

lemma last_dropWhile: "dropWhile P xs \<noteq> [] \<Longrightarrow> last (dropWhile P xs) = last xs"
  by (induction xs) (auto split: if_splits)

lemma strip_id: "s = [] \<or> (\<not> is_space (hd s) \<and> \<not> is_space (last s)) \<Longrightarrow> strip s = s"
proof (cases s)
  case Nil
  then show ?thesis by (simp add: strip_def)
next
  case (Cons c cs)
  assume "s = [] \<or> (\<not> is_space (hd s) \<and> \<not> is_space (last s))"
  with Cons have h: "\<not> is_space c" and l: "\<not> is_space (last s)" by auto
  from h Cons have d: "dropWhile is_space s = s" by simp
  note s_def = Cons
  have "dropWhile is_space (rev s) = rev s"
  proof (cases "rev s")
    case Nil
    then show ?thesis by simp
  next
    case (Cons y ys)
    then have "y = last s" using s_def by (metis hd_rev list.sel(1))
    with l have "\<not> is_space y" by simp
    then show ?thesis by (simp only: Cons dropWhile.simps if_False)
  qed
  with d show ?thesis by (simp add: strip_def)
qed

lemma strip_ends:
  assumes "strip s \<noteq> []"
  shows "\<not> is_space (hd (strip s)) \<and> \<not> is_space (last (strip s))"
proof -
  let ?t = "dropWhile is_space s"
  let ?u = "dropWhile is_space (rev ?t)"
  from assms have u: "?u \<noteq> []" by (simp add: strip_def)
  have t: "?t \<noteq> []"
    using u by (metis dropWhile.simps(1) rev.simps(1))
  have "last (strip s) = hd ?u" using u by (simp add: strip_def last_rev)
  moreover have "\<not> is_space (hd ?u)" using u by (rule hd_dropWhile)
  moreover have "hd (strip s) = last ?u" using u by (simp add: strip_def hd_rev)
  moreover have "last ?u = last (rev ?t)" using u by (rule last_dropWhile)
  moreover have "last (rev ?t) = hd ?t" using t by (simp add: last_rev)
  moreover have "\<not> is_space (hd ?t)" using t by (rule hd_dropWhile)
  ultimately show ?thesis by simp
qed

lemma strip_strip: "strip (strip s) = strip s"
  using strip_ends [of s] strip_id [of "strip s"] by blast

lemma strip_space_Cons: "is_space c \<Longrightarrow> strip (c # s) = strip s"
  by (simp add: strip_def)

lemma stripped_lines_alt:
  "stripped_lines result = filter (\<lambda>l. l \<noteq> []) (map strip (split_nl result))"
  by (simp add: stripped_lines_def filter_map comp_def)

lemma stripped_lines_stripped: "l \<in> set (stripped_lines result) \<Longrightarrow> strip l = l"
  by (auto simp: stripped_lines_def strip_strip)

lemma for_not_against:
  "prefix ''FOR:'' u \<or> prefix ''FOR '' u \<Longrightarrow> \<not> prefix ''AGAINST:'' u \<and> \<not> prefix ''AGAINST '' u"
  by (auto simp: prefix_def)

lemma stance_step_stripped:
  assumes "strip x = x"
  shows "stance_step st x =
           (if spec_has_label ''FOR'' x then (strip (drop 4 x), snd st)
            else if spec_has_label ''AGAINST'' x then (fst st, strip (drop 8 x))
            else st)"
  using for_not_against [of "upper x"]
  by (auto simp: assms stance_step_def Let_def startswith_def spec_has_label_def)

lemma foldl_stance_step:
  assumes "\<forall>l \<in> set lines. strip l = l"
  shows "foldl stance_step st lines =
           (if filter (spec_has_label ''FOR'') lines = [] then fst st
            else strip (drop 4 (last (filter (spec_has_label ''FOR'') lines))),
            if filter (spec_has_label ''AGAINST'') lines = [] then snd st
            else strip (drop 8 (last (filter (spec_has_label ''AGAINST'') lines))))"
  using assms
proof (induction lines rule: rev_induct)
  case Nil
  then show ?case by simp
next
  case (snoc x xs)
  then have x: "strip x = x" and IH: "foldl stance_step st xs =
           (if filter (spec_has_label ''FOR'') xs = [] then fst st
            else strip (drop 4 (last (filter (spec_has_label ''FOR'') xs))),
            if filter (spec_has_label ''AGAINST'') xs = [] then snd st
            else strip (drop 8 (last (filter (spec_has_label ''AGAINST'') xs))))"
    by auto
  have excl: "spec_has_label ''FOR'' x \<Longrightarrow> \<not> spec_has_label ''AGAINST'' x"
    using for_not_against [of "upper x"] by (auto simp: spec_has_label_def)
  have "foldl stance_step st (xs @ [x]) = stance_step (foldl stance_step st xs) x"
    by simp
  also have "\<dots> = (if spec_has_label ''FOR'' x
                    then (strip (drop 4 x), snd (foldl stance_step st xs))
                    else if spec_has_label ''AGAINST'' x
                    then (fst (foldl stance_step st xs), strip (drop 8 x))
                    else foldl stance_step st xs)"
    by (rule stance_step_stripped [OF x])
  finally show ?case
    using excl by (auto simp: IH)
qed

lemma parse_stances_refines: "parse_stances result = spec_parse_stances result"
proof -
  let ?lines = "stripped_lines result"
  have st: "\<forall>l \<in> set ?lines. strip l = l"
    by (simp add: stripped_lines_stripped)
  have f: "foldl stance_step ([], []) ?lines
             = (spec_statement ''FOR'' ?lines, spec_statement ''AGAINST'' ?lines)"
    by (simp add: foldl_stance_step [OF st] spec_statement_def Let_def eval_nat_numeral)
  have l0: "2 \<le> length ?lines \<Longrightarrow> strip (?lines ! 0) = ?lines ! 0"
    using st by (metis nth_mem less_le_trans zero_less_numeral)
  have l1: "2 \<le> length ?lines \<Longrightarrow> strip (?lines ! 1) = ?lines ! 1"
    using st by (metis nth_mem less_le_trans one_less_numeral_iff semiring_norm(76))
  show ?thesis
    using l0 l1
    by (auto simp: parse_stances_def spec_parse_stances_def f Let_def spec_strip_labels_def
          stripped_lines_alt [symmetric])
qed


lemma split_nl_no_nl: "CHR 0x0A \<notin> set a \<Longrightarrow> split_nl a = [a]"
  by (induction a) auto

lemma split_nl_append:
  "CHR 0x0A \<notin> set a \<Longrightarrow> split_nl (a @ CHR 0x0A # b) = a # split_nl b"
  by (induction a) auto

lemma str_remove_absent: "\<not> str_contains old s \<Longrightarrow> str_remove old s = s"
  by (induction s) auto

lemma str_contains_longer: "\<not> str_contains a s \<Longrightarrow> \<not> str_contains (a @ b) s"
  unfolding str_contains_iff by (metis append.assoc)

lemma strip_label_line:
  assumes "strip X = X" and "X \<noteq> []" and "\<not> is_space c" 
  shows "strip (c # cs @ X) = c # cs @ X"
proof -
  from assms(1,2) have "\<not> is_space (last X)" using strip_ends [of X] by simp
  with assms(2,3) show ?thesis by (intro strip_id) simp
qed

lemma parse_well_formed:
  assumes "strip X = X" and "X \<noteq> []" and "CHR 0x0A \<notin> set X" and "\<not> str_contains ''FOR'' X"
      and "strip Y = Y" and "Y \<noteq> []" and "CHR 0x0A \<notin> set Y" and "\<not> str_contains ''AGAINST'' Y"
  shows "parse_stances (''FOR: '' @ X @ ''\<newline>'' @ ''AGAINST: '' @ Y) = (X, Y)"
proof -
  let ?l1 = "''FOR: '' @ X" and ?l2 = "''AGAINST: '' @ Y"
  have n1: "CHR 0x0A \<notin> set ?l1" and n2: "CHR 0x0A \<notin> set ?l2"
    using assms(3,7) by auto
  have sp: "split_nl (?l1 @ CHR 0x0A # ?l2) = [?l1, ?l2]"
    using split_nl_append [OF n1, of ?l2] split_nl_no_nl [OF n2] by (simp only:)
  have s1: "strip ?l1 = ?l1"
    using strip_label_line [OF assms(1,2), of "CHR ''F''" "''OR: ''"] by (simp add: is_space_def)
  have s2: "strip ?l2 = ?l2"
    using strip_label_line [OF assms(5,6), of "CHR ''A''" "''GAINST: ''"] by (simp add: is_space_def)
  have lines: "stripped_lines (?l1 @ CHR 0x0A # ?l2) = [?l1, ?l2]"
    using assms(2,6) by (simp only: stripped_lines_def sp) (simp add: s1 [simplified] s2 [simplified])
  have bl: "is_space (CHR '' '')" by (simp add: is_space_def)
  have d1: "strip (drop 4 ?l1) = X"
    using strip_space_Cons [OF bl, of X] assms(1) by simp
  have d2: "strip (drop 8 ?l2) = Y"
    using strip_space_Cons [OF bl, of Y] assms(5) by simp
  have u1: "prefix ''FOR:'' (upper ?l1)" by (simp add: upper_def upper_char_def)
  have u2: "prefix ''AGAINST:'' (upper ?l2)" by (simp add: upper_def upper_char_def)
  have u2': "\<not> prefix ''FOR:'' (upper ?l2)" by (simp add: upper_def upper_char_def)
  have step1: "stance_step ([], []) ?l1 = (X, [])"
    by (simp only: stance_step_def Let_def s1 startswith_def u1 d1 if_True snd_conv)
  have step2: "stance_step (X, []) ?l2 = (X, Y)"
    by (simp only: stance_step_def Let_def s2 startswith_def u2 u2' d2 if_True if_False fst_conv)
  have fold: "foldl stance_step ([], []) [?l1, ?l2] = (X, Y)"
    by (simp only: foldl.simps step1 step2)
  have r1: "str_remove ''FOR'' (str_remove ''FOR:'' X) = X"
    using assms(4) str_contains_longer [of "''FOR''" X "'':''"] by (simp add: str_remove_absent)
  have r2: "str_remove ''AGAINST'' (str_remove ''AGAINST:'' Y) = Y"
    using assms(8) str_contains_longer [of "''AGAINST''" Y "'':''"] by (simp add: str_remove_absent)
  have "parse_stances (?l1 @ CHR 0x0A # ?l2) = (X, Y)"
    using assms(1,2,5)
    by (simp only: parse_stances_def Let_def lines fold) (simp add: r1 r2)
  then show ?thesis by simp
qed

section \<open>Parsing the stances\<close>

text \<open>
  Claim C4, as amended. When the reply is \<^verbatim>\<open>FOR: X\<close>, a line feed, \<^verbatim>\<open>AGAINST: Y\<close>, where \<^verbatim>\<open>X\<close>
  and \<^verbatim>\<open>Y\<close> are trimmed, hold no line feed, have at least 5 characters, and \<^verbatim>\<open>X\<close> does not
  contain \<^verbatim>\<open>FOR\<close> nor \<^verbatim>\<open>Y\<close> \<^verbatim>\<open>AGAINST\<close> in upper case, \<^verbatim>\<open>generate_stances\<close> returns exactly
  \<^verbatim>\<open>(X, Y)\<close> after the one request of the first attempt. On every reply the parse is the
  algorithm of the specification.
\<close>

theorem parse_well_formed_stances:
  "(strip topic \<noteq> []
    \<and> strip X = X \<and> CHR 0x0A \<notin> set X \<and> 5 \<le> length X \<and> \<not> str_contains ''FOR'' X
    \<and> strip Y = Y \<and> CHR 0x0A \<notin> set Y \<and> 5 \<le> length Y \<and> \<not> str_contains ''AGAINST'' Y
    \<and> be (length lg) m (stances_prompt topic) = Returns d
    \<and> map_of d ''response'' = Some (''FOR: '' @ X @ ''\<newline>'' @ ''AGAINST: '' @ Y)
    \<longrightarrow> generate_stances be m topic lg = (Inr (X, Y), lg @ [(m, stances_prompt topic)]))
   \<and> parse_stances result = spec_parse_stances result"
proof (intro conjI impI)
  assume a: "strip topic \<noteq> []
    \<and> strip X = X \<and> CHR 0x0A \<notin> set X \<and> 5 \<le> length X \<and> \<not> str_contains ''FOR'' X
    \<and> strip Y = Y \<and> CHR 0x0A \<notin> set Y \<and> 5 \<le> length Y \<and> \<not> str_contains ''AGAINST'' Y
    \<and> be (length lg) m (stances_prompt topic) = Returns d
    \<and> map_of d ''response'' = Some (''FOR: '' @ X @ ''\<newline>'' @ ''AGAINST: '' @ Y)"
  then have ne: "topic \<noteq> []" "X \<noteq> []" "Y \<noteq> []"
    using strip_nonempty by auto
  from a ne have p: "parse_stances (''FOR: '' @ X @ ''\<newline>'' @ ''AGAINST: '' @ Y) = (X, Y)"
    by (intro parse_well_formed) simp_all
  from a have rt: "request_text be m (stances_prompt topic) lg
        = (Inr (''FOR: '' @ X @ ''\<newline>'' @ ''AGAINST: '' @ Y), lg @ [(m, stances_prompt topic)])"
    using request_text_returns by blast
  show "generate_stances be m topic lg = (Inr (X, Y), lg @ [(m, stances_prompt topic)])"
    using a ne by (simp add: generate_stances_def rt p Let_def del: append.simps)
next
  show "parse_stances result = spec_parse_stances result"
    by (rule parse_stances_refines)
qed

theorem parse_well_formed_stances_witness:
  "generate_stances
     (\<lambda>n m p. Returns [(''response'',
        ''FOR: Remote work increases flexibility.\<newline>AGAINST: Office work improves collaboration.'')])
     ''llama3.2:3b'' ''Should remote work be standard?'' []
   = (Inr (''Remote work increases flexibility.'', ''Office work improves collaboration.''),
      [(''llama3.2:3b'', stances_prompt ''Should remote work be standard?'')])"
proof -
  have x: "strip ''Remote work increases flexibility.'' = ''Remote work increases flexibility.''"
    by code_simp
  have y: "strip ''Office work improves collaboration.'' = ''Office work improves collaboration.''"
    by code_simp
  have t: "strip ''Should remote work be standard?'' \<noteq> []"
    by code_simp
  have cx: "\<not> str_contains ''FOR'' ''Remote work increases flexibility.''"
    by code_simp
  have cy: "\<not> str_contains ''AGAINST'' ''Office work improves collaboration.''"
    by code_simp
  show ?thesis
    using parse_well_formed_stances [where topic = "''Should remote work be standard?''" and lg = "[]"
        and m = "''llama3.2:3b''"
        and X = "''Remote work increases flexibility.''"
        and Y = "''Office work improves collaboration.''"
        and be = "\<lambda>n m p. Returns [(''response'',
           ''FOR: Remote work increases flexibility.\<newline>AGAINST: Office work improves collaboration.'')]"
        and d = "[(''response'',
           ''FOR: Remote work increases flexibility.\<newline>AGAINST: Office work improves collaboration.'')]"]
      x y t cx cy
    by simp
qed

text \<open>
  For the reply of the claim read literally, with the statements \<^verbatim>\<open>X\<close> and \<^verbatim>\<open>Y\<close> of one
  character, the parse gives \<^verbatim>\<open>('X', 'Y')\<close> but the length check sends the retry; a backend
  that answers the same text again makes the result the two lines with their labels.
\<close>

theorem literal_stances_counterexample:
  "generate_stances (\<lambda>n m p. Returns [(''response'', ''FOR: X\<newline>AGAINST: Y'')])
     ''llama3.2:3b'' ''Cats'' []
   = (Inr (''FOR: X'', ''AGAINST: Y''),
      [(''llama3.2:3b'', stances_prompt ''Cats''), (''llama3.2:3b'', simple_prompt ''Cats'')])"
proof -
  have p: "parse_stances ''FOR: X\<newline>AGAINST: Y'' = (''X'', ''Y'')"
    by code_simp
  have l: "stripped_lines ''FOR: X\<newline>AGAINST: Y'' = [''FOR: X'', ''AGAINST: Y'']"
    by code_simp
  have t: "strip ''Cats'' \<noteq> []"
    by code_simp
  show ?thesis
    using t
    by (simp add: generate_stances_def retry_generate_stances_def request_text_def
          make_api_request_def subscript_def p l Let_def)
qed



section \<open>The context window of a turn\<close>





section \<open>A round, stage by stage\<close>

lemma generate_response_ok:
  assumes "generate_response be m topic context stance lg = (Inr resp, lg1)"
  shows "\<exists>p t. be (length lg) m p = Returns resp \<and> lg1 = lg @ [(m, p)]
           \<and> map_of resp ''response'' = Some t \<and> t \<noteq> []
           \<and> topic \<noteq> [] \<and> (stance = ''for'' \<or> stance = ''against'')"
  using assms
  by (auto simp: generate_response_def make_api_request_def
           split: if_splits sum.splits option.splits outcome.splits)

lemma handle_errors_round:
  "handle_errors r = ModeratorIntervention a mtext s n \<Longrightarrow> r = Inr (ModeratorIntervention a mtext s n)"
  "handle_errors r = Success a ev n h \<Longrightarrow> r = Inr (Success a ev n h)"
  by (auto simp: handle_errors_def split: sum.splits if_splits)

lemma debate_round_fst:
  "fst (debate_round be cfg data lg) = handle_errors (fst (debate_round_body be cfg data lg))"
  by (simp add: debate_round_def split: prod.splits)

lemma debate_round_snd:
  "snd (debate_round be cfg data lg) = snd (debate_round_body be cfg data lg)"
  by (simp add: debate_round_def split: prod.splits)

lemma body_missing:
  "req_topic data = None \<or> req_current_side data = None \<Longrightarrow>
   debate_round_body be cfg data lg
     = (Inr (ErrorResponse 400 ''Missing required debate information''), lg)"
  by (auto simp: debate_round_body_def split: option.splits)

lemma body_invalid_side:
  "req_topic data = Some topic \<Longrightarrow> req_current_side data = Some side \<Longrightarrow>
   side \<noteq> ''for'' \<Longrightarrow> side \<noteq> ''against'' \<Longrightarrow>
   debate_round_body be cfg data lg
     = (Inr (ErrorResponse 400 ''Invalid debate side specified''), lg)"
  by (simp add: debate_round_body_def)

lemma body_generate_fails:
  "req_topic data = Some topic \<Longrightarrow> req_current_side data = Some side \<Longrightarrow>
   side = ''for'' \<or> side = ''against'' \<Longrightarrow>
   generate_response be (DEBATE_MODEL cfg) topic (req_debate_history data) side lg = (Inl e, lg1) \<Longrightarrow>
   debate_round_body be cfg data lg = (Inl e, lg1)"
  by (auto simp: debate_round_body_def)

lemma body_texts_fail:
  "req_topic data = Some topic \<Longrightarrow> req_current_side data = Some side \<Longrightarrow>
   side = ''for'' \<or> side = ''against'' \<Longrightarrow>
   generate_response be (DEBATE_MODEL cfg) topic (req_debate_history data) side lg = (Inr resp, lg1) \<Longrightarrow>
   map_of resp ''response'' = Some a \<Longrightarrow>
   texts_of ((case req_debate_history data of None \<Rightarrow> [] | Some x \<Rightarrow> x)
             @ [JObj [(''side'', JStr side), (''text'', JStr a)]]) = Inl e \<Longrightarrow>
   debate_round_body be cfg data lg = (Inl e, lg1)"
  by (auto simp: debate_round_body_def subscript_def Let_def)

lemma body_moderated:
  "req_topic data = Some topic \<Longrightarrow> req_current_side data = Some side \<Longrightarrow>
   side = ''for'' \<or> side = ''against'' \<Longrightarrow>
   generate_response be (DEBATE_MODEL cfg) topic (req_debate_history data) side lg = (Inr resp, lg1) \<Longrightarrow>
   map_of resp ''response'' = Some a \<Longrightarrow>
   texts_of ((case req_debate_history data of None \<Rightarrow> [] | Some x \<Rightarrow> x)
             @ [JObj [(''side'', JStr side), (''text'', JStr a)]]) = Inr texts \<Longrightarrow>
   debate_round_body be cfg data lg =
     (case should_intervene be (MODERATOR_MODEL cfg) topic texts lg1 of
        (Inl e, lg2) \<Rightarrow> (Inl e, lg2)
      | (Inr moderator_check, lg2) \<Rightarrow>
          (if needs_intervention moderator_check
           then (case generate_summary be (MODERATOR_MODEL cfg) topic texts lg2 of
                   (Inl e, lg3) \<Rightarrow> (Inl e, lg3)
                 | (Inr summ, lg3) \<Rightarrow>
                     (Inr (ModeratorIntervention a (i_reason moderator_check) summ
                            (if side = ''against'' then ''for'' else ''against'')), lg3))
           else (case evaluate_response be (MODERATOR_MODEL cfg) topic a texts lg2 of
                   (Inl e, lg3) \<Rightarrow> (Inl e, lg3)
                 | (Inr eval, lg3) \<Rightarrow>
                     (Inr (Success a eval (if side = ''against'' then ''for'' else ''against'')
                            ((case req_debate_history data of None \<Rightarrow> [] | Some x \<Rightarrow> x)
                             @ [JObj [(''side'', JStr side), (''text'', JStr a)]])), lg3))))"
  by (simp add: debate_round_body_def subscript_def Let_def
        cong: if_cong prod.case_cong sum.case_cong)

lemma format_history_JStr: "format_history (map JStr ts) = Inr ts"
  by (induction ts) (auto simp: py_str_def)

lemma last_n_map: "last_n n (map f xs) = map f (last_n n xs)"
  by (simp add: last_n_def drop_map)

lemma should_intervene_texts:
  assumes "ts \<noteq> []"
  shows "\<exists>chk. should_intervene be m topic (map JStr ts) lg
           = (Inr chk, lg @ [(m, intervene_prompt topic (join_nl (last_n 3 ts)))])"
proof -
  let ?p = "intervene_prompt topic (join_nl (last_n 3 ts))"
  obtain r where "request_text be m ?p lg = (r, lg @ [(m, ?p)])"
    using request_text_log [of be m ?p lg] by (cases "request_text be m ?p lg") auto
  with assms show ?thesis
    by (cases r) (simp_all add: should_intervene_def last_n_map format_history_JStr Let_def)
qed

lemma generate_summary_texts:
  assumes "ts \<noteq> []"
  shows "snd (generate_summary be m topic (map JStr ts) lg)
           = lg @ [(m, summary_prompt topic (join_nl (last_n 5 ts)))]"
  using assms
  by (simp add: generate_summary_def last_n_map format_history_JStr request_text_log)

lemma evaluate_response_texts:
  assumes "a \<noteq> []"
  shows "snd (evaluate_response be m topic a (map JStr ts) lg)
           = lg @ [(m, evaluate_prompt topic a (join_nl (last_n 3 ts)))]"
  using assms
  by (simp add: evaluate_response_def last_n_map format_history_JStr make_api_request_def)

lemma json_subscript_Inr:
  "json_subscript e k = Inr t \<longleftrightarrow> (\<exists>d. e = JObj d \<and> map_of d k = Some t)"
  by (cases e) (auto simp: json_subscript_def split: option.splits)

lemma texts_of_Inr:
  "texts_of h = Inr ts \<Longrightarrow>
     list_all2 (\<lambda>e t. \<exists>d. e = JObj d \<and> map_of d ''text'' = Some t) h ts"
proof (induction h arbitrary: ts)
  case Nil
  then show ?case by simp
next
  case (Cons e h)
  show ?case
  proof (cases "json_subscript e ''text''")
    case (Inl x)
    with Cons.prems show ?thesis by simp
  next
    case (Inr t)
    then have e: "\<exists>d. e = JObj d \<and> map_of d ''text'' = Some t"
      by (simp add: json_subscript_Inr)
    show ?thesis
    proof (cases "texts_of h")
      case (Inl x)
      with Inr Cons.prems show ?thesis by simp
    next
      case ts': (Inr ts')
      with Inr Cons.prems have ts: "ts = t # ts'" by simp
      from Cons.IH [OF ts']
      have "list_all2 (\<lambda>e t. \<exists>d. e = JObj d \<and> map_of d ''text'' = Some t) h ts'" .
      with e ts show ?thesis by simp
    qed
  qed
qed

lemma texts_of_raw:
  assumes "JStr raw \<in> set h"
      and "\<forall>e \<in> set h. (\<exists>s. e = JStr s) \<or> (\<exists>d. e = JObj d \<and> map_of d ''text'' \<noteq> None)"
  shows "texts_of (h @ h')
           = Inl (Exn TypeError (''string indices must be integers, not 'str'' @ [CHR 0x27]))"
  using assms
proof (induction h)
  case Nil
  then show ?case by simp
next
  case (Cons e h)
  from Cons.prems(2) consider s where "e = JStr s"
    | d t where "e = JObj d" "map_of d ''text'' = Some t"
    by auto
  then show ?case
  proof cases
    case 1
    then show ?thesis by (simp add: json_subscript_def)
  next
    case 2
    with Cons.prems have "JStr raw \<in> set h"
      and "\<forall>e \<in> set h. (\<exists>s. e = JStr s) \<or> (\<exists>d. e = JObj d \<and> map_of d ''text'' \<noteq> None)"
      by auto
    with Cons.IH
    have "texts_of (h @ h')
            = Inl (Exn TypeError (''string indices must be integers, not 'str'' @ [CHR 0x27]))"
      by blast
    with 2 show ?thesis by (simp add: json_subscript_def)
  qed
qed

lemma body_round_cases:
  assumes "fst (debate_round_body be cfg data lg) = Inr r"
      and "(\<exists>a mtext s n. r = ModeratorIntervention a mtext s n) \<or> (\<exists>a ev n h. r = Success a ev n h)"
  obtains topic side resp lg1 a texts p where
      "req_topic data = Some topic" and "req_current_side data = Some side"
      and "side = ''for'' \<or> side = ''against''"
      and "generate_response be (DEBATE_MODEL cfg) topic (req_debate_history data) side lg
             = (Inr resp, lg1)"
      and "be (length lg) (DEBATE_MODEL cfg) p = Returns resp"
      and "lg1 = lg @ [(DEBATE_MODEL cfg, p)]"
      and "map_of resp ''response'' = Some a" and "a \<noteq> []"
      and "texts_of ((case req_debate_history data of None \<Rightarrow> [] | Some x \<Rightarrow> x)
             @ [JObj [(''side'', JStr side), (''text'', JStr a)]]) = Inr texts"
proof -
  have notmissing: "\<not> (req_topic data = None \<or> req_current_side data = None)"
  proof
    assume "req_topic data = None \<or> req_current_side data = None"
    from body_missing [OF this, of be cfg lg] assms show False by auto
  qed
  then obtain topic side where ts: "req_topic data = Some topic" "req_current_side data = Some side"
    by auto
  have side: "side = ''for'' \<or> side = ''against''"
  proof (rule ccontr)
    assume "\<not> (side = ''for'' \<or> side = ''against'')"
    then have "side \<noteq> ''for''" "side \<noteq> ''against''" by blast+
    from body_invalid_side [OF ts this, of be cfg lg] assms show False by auto
  qed
  obtain g lg1 where g: "generate_response be (DEBATE_MODEL cfg) topic (req_debate_history data)
      side lg = (g, lg1)"
    by (cases "generate_response be (DEBATE_MODEL cfg) topic (req_debate_history data) side lg")
  have "\<exists>resp. g = Inr resp"
  proof (cases g)
    case (Inl e)
    from body_generate_fails [OF ts side g [unfolded Inl]] assms(1) show ?thesis by simp
  next
    case (Inr resp)
    then show ?thesis by blast
  qed
  then obtain resp where resp: "g = Inr resp" by blast
  from generate_response_ok [OF g [unfolded resp]]
  obtain p a where p: "be (length lg) (DEBATE_MODEL cfg) p = Returns resp"
      "lg1 = lg @ [(DEBATE_MODEL cfg, p)]" "map_of resp ''response'' = Some a" "a \<noteq> []"
    by blast
  let ?h = "(case req_debate_history data of None \<Rightarrow> [] | Some x \<Rightarrow> x)
             @ [JObj [(''side'', JStr side), (''text'', JStr a)]]"
  have "\<exists>texts. texts_of ?h = Inr texts"
  proof (cases "texts_of ?h")
    case (Inl e)
    from body_texts_fail [OF ts side g [unfolded resp] p(3) Inl] assms(1) show ?thesis by simp
  next
    case (Inr texts)
    then show ?thesis by blast
  qed
  then obtain texts where "texts_of ?h = Inr texts" by blast
  with ts side g resp p that show ?thesis by blast
qed

lemma texts_of_length: "texts_of h = Inr ts \<Longrightarrow> length ts = length h"
  by (drule texts_of_Inr) (simp add: list_all2_lengthD)

lemma body_round_result:
  assumes "req_topic data = Some topic" and "req_current_side data = Some side"
      and "side = ''for'' \<or> side = ''against''"
      and "generate_response be (DEBATE_MODEL cfg) topic (req_debate_history data) side lg
             = (Inr resp, lg1)"
      and "map_of resp ''response'' = Some a"
      and "texts_of ((case req_debate_history data of None \<Rightarrow> [] | Some x \<Rightarrow> x)
             @ [JObj [(''side'', JStr side), (''text'', JStr a)]]) = Inr texts"
  shows "(fst (debate_round_body be cfg data lg) = Inr (ModeratorIntervention a' mtext s n)
            \<longrightarrow> a' = a \<and> n = (if side = ''against'' then ''for'' else ''against''))
       \<and> (fst (debate_round_body be cfg data lg) = Inr (Success a' ev n h)
            \<longrightarrow> a' = a \<and> n = (if side = ''against'' then ''for'' else ''against'')
                \<and> h = (case req_debate_history data of None \<Rightarrow> [] | Some x \<Rightarrow> x)
                        @ [JObj [(''side'', JStr side), (''text'', JStr a)]])"
proof -
  let ?M = "MODERATOR_MODEL cfg"
  note eq = body_moderated [OF assms(1,2,3,4,5,6)]
  obtain r lg2 where si: "should_intervene be ?M topic texts lg1 = (r, lg2)"
    by (cases "should_intervene be ?M topic texts lg1")
  show ?thesis
  proof (cases r)
    case (Inl e)
    with eq si show ?thesis by simp
  next
    case (Inr chk)
    show ?thesis
    proof (cases "needs_intervention chk")
      case True
      obtain r' lg3 where gs: "generate_summary be ?M topic texts lg2 = (r', lg3)"
        by (cases "generate_summary be ?M topic texts lg2")
      from eq si Inr True gs show ?thesis by (cases r') auto
    next
      case False
      obtain r' lg3 where ev: "evaluate_response be ?M topic a texts lg2 = (r', lg3)"
        by (cases "evaluate_response be ?M topic a texts lg2")
      from eq si Inr False ev show ?thesis by (cases r') auto
    qed
  qed
qed

lemma body_round_log:
  assumes "req_topic data = Some topic" and "req_current_side data = Some side"
      and "side = ''for'' \<or> side = ''against''"
      and "generate_response be (DEBATE_MODEL cfg) topic (req_debate_history data) side lg
             = (Inr resp, lg1)"
      and "map_of resp ''response'' = Some a" and "a \<noteq> []"
      and "texts_of ((case req_debate_history data of None \<Rightarrow> [] | Some x \<Rightarrow> x)
             @ [JObj [(''side'', JStr side), (''text'', JStr a)]]) = Inr (map JStr ts)"
  shows "\<exists>q. snd (debate_round_body be cfg data lg)
                 = lg1 @ [(MODERATOR_MODEL cfg, intervene_prompt topic (join_nl (last_n 3 ts))),
                          (MODERATOR_MODEL cfg, q)]
              \<and> (q = summary_prompt topic (join_nl (last_n 5 ts))
                   \<or> q = evaluate_prompt topic a (join_nl (last_n 3 ts)))"
proof -
  let ?M = "MODERATOR_MODEL cfg"
  let ?p1 = "(?M, intervene_prompt topic (join_nl (last_n 3 ts)))"
  from texts_of_length [OF assms(7)] have ne: "ts \<noteq> []" by auto
  from should_intervene_texts [OF ne, of be ?M topic lg1]
  obtain chk where si: "should_intervene be ?M topic (map JStr ts) lg1 = (Inr chk, lg1 @ [?p1])"
    by blast
  note eq = body_moderated [OF assms(1,2,3,4,5,7), unfolded si, simplified]
  show ?thesis
  proof (cases "needs_intervention chk")
    case True
    obtain r lg3 where gs: "generate_summary be ?M topic (map JStr ts) (lg1 @ [?p1]) = (r, lg3)"
      by (cases "generate_summary be ?M topic (map JStr ts) (lg1 @ [?p1])")
    from generate_summary_texts [OF ne, of be ?M topic "lg1 @ [?p1]"] gs
    have lg3: "lg3 = lg1 @ [?p1, (?M, summary_prompt topic (join_nl (last_n 5 ts)))]"
      by simp
    from eq True gs lg3 show ?thesis by (cases r) auto
  next
    case False
    obtain r lg3 where ev: "evaluate_response be ?M topic a (map JStr ts) (lg1 @ [?p1]) = (r, lg3)"
      by (cases "evaluate_response be ?M topic a (map JStr ts) (lg1 @ [?p1])")
    from evaluate_response_texts [OF assms(6), of be ?M topic ts "lg1 @ [?p1]"] ev
    have lg3: "lg3 = lg1 @ [?p1, (?M, evaluate_prompt topic a (join_nl (last_n 3 ts)))]"
      by simp
    from eq False ev lg3 show ?thesis by (cases r) auto
  qed
qed


section \<open>Strict alternation of the next side\<close>

text \<open>
  Claim C2. Whenever \<^verbatim>\<open>debate_round\<close> answers with a round outcome, the moderator's
  intervention or the evaluated result, the request's \<^verbatim>\<open>current_side\<close> is \<^verbatim>\<open>'for'\<close> or
  \<^verbatim>\<open>'against'\<close> and the answer's \<^verbatim>\<open>next_side\<close> is the other one.
\<close>

theorem debate_round_next_side:
  "req_current_side data = Some side
   \<and> (fst (debate_round be cfg data lg) = ModeratorIntervention a mtext s n
       \<or> fst (debate_round be cfg data lg) = Success a' ev n h)
   \<longrightarrow> (side = ''for'' \<and> n = ''against'') \<or> (side = ''against'' \<and> n = ''for'')"
proof
  assume asm: "req_current_side data = Some side
   \<and> (fst (debate_round be cfg data lg) = ModeratorIntervention a mtext s n
       \<or> fst (debate_round be cfg data lg) = Success a' ev n h)"
  then have r: "fst (debate_round_body be cfg data lg) = Inr (ModeratorIntervention a mtext s n)
       \<or> fst (debate_round_body be cfg data lg) = Inr (Success a' ev n h)"
    using handle_errors_round [of "fst (debate_round_body be cfg data lg)"]
    by (auto simp: debate_round_fst)
  then obtain r where r': "fst (debate_round_body be cfg data lg) = Inr r"
    and rr: "(\<exists>a mtext s n. r = ModeratorIntervention a mtext s n) \<or> (\<exists>a ev n h. r = Success a ev n h)"
    by blast
  from r' rr obtain topic side' resp lg1 a0 texts p where st:
      "req_topic data = Some topic" "req_current_side data = Some side'"
      "side' = ''for'' \<or> side' = ''against''"
      "generate_response be (DEBATE_MODEL cfg) topic (req_debate_history data) side' lg
             = (Inr resp, lg1)"
      "be (length lg) (DEBATE_MODEL cfg) p = Returns resp"
      "lg1 = lg @ [(DEBATE_MODEL cfg, p)]"
      "map_of resp ''response'' = Some a0" "a0 \<noteq> []"
      "texts_of ((case req_debate_history data of None \<Rightarrow> [] | Some x \<Rightarrow> x)
             @ [JObj [(''side'', JStr side'), (''text'', JStr a0)]]) = Inr texts"
    by (rule body_round_cases)
  from asm st(2) have sd: "side' = side" by simp
  from body_round_result [OF st(1,2,3,4,7,9), where a' = a and mtext = mtext and s = s and n = n]
       body_round_result [OF st(1,2,3,4,7,9), where a' = a' and ev = ev and h = h and n = n] r
  have "n = (if side' = ''against'' then ''for'' else ''against'')"
    by (elim disjE conjE) auto
  with st(3) sd show "(side = ''for'' \<and> n = ''against'') \<or> (side = ''against'' \<and> n = ''for'')"
    by auto
qed

theorem debate_round_next_side_witness:
  "fst (debate_round
     (\<lambda>n m p. if n = 1 then Returns [(''response'', ''True: the debate is circular.'')]
               else Returns [(''response'', ''Actually, cats purr.'')])
     \<lparr>FILTER_MODEL = ''llama3.2:3b'', PROMPT_MODEL = ''llama3.2:3b'',
      DEBATE_MODEL = ''llama3.2:3b'', MODERATOR_MODEL = ''llama3.2:3b''\<rparr>
     \<lparr>req_topic = Some ''Cats'', req_debate_history = Some [], req_current_side = Some ''for''\<rparr> [])
   = ModeratorIntervention ''Actually, cats purr.'' ''true: the debate is circular.''
       ''Actually, cats purr.'' ''against''
   \<and> fst (debate_round
     (\<lambda>n m p. Returns [(''response'', ''Actually, dogs bark.'')])
     \<lparr>FILTER_MODEL = ''llama3.2:3b'', PROMPT_MODEL = ''llama3.2:3b'',
      DEBATE_MODEL = ''llama3.2:3b'', MODERATOR_MODEL = ''llama3.2:3b''\<rparr>
     \<lparr>req_topic = Some ''Cats'',
      req_debate_history = Some [JObj [(''side'', JStr ''for''), (''text'', JStr ''Actually, cats purr.'')]],
      req_current_side = Some ''against''\<rparr> [])
   = Success ''Actually, dogs bark.'' [(''response'', ''Actually, dogs bark.'')] ''for''
       [JObj [(''side'', JStr ''for''), (''text'', JStr ''Actually, cats purr.'')],
        JObj [(''side'', JStr ''against''), (''text'', JStr ''Actually, dogs bark.'')]]"
proof -
  let ?cfg = "\<lparr>FILTER_MODEL = ''llama3.2:3b'', PROMPT_MODEL = ''llama3.2:3b'',
      DEBATE_MODEL = ''llama3.2:3b'', MODERATOR_MODEL = ''llama3.2:3b''\<rparr>"
  let ?be1 = "\<lambda>(n::nat) (m::string) (p::string).
                if n = 1 then Returns [(''response'', ''True: the debate is circular.'')]
                else Returns [(''response'', ''Actually, cats purr.'')]"
  let ?be2 = "\<lambda>(n::nat) (m::string) (p::string). Returns [(''response'', ''Actually, dogs bark.'')]"
  let ?d1 = "\<lparr>req_topic = Some ''Cats'', req_debate_history = Some [],
              req_current_side = Some ''for''\<rparr>"
  let ?d2 = "\<lparr>req_topic = Some ''Cats'',
      req_debate_history = Some [JObj [(''side'', JStr ''for''), (''text'', JStr ''Actually, cats purr.'')]],
      req_current_side = Some ''against''\<rparr>"
  have ev1: "fst (debate_round ?be1 ?cfg ?d1 [])
     = ModeratorIntervention ''Actually, cats purr.'' ''true: the debate is circular.''
         ''Actually, cats purr.'' ''against''"
    by code_simp
  have ev2: "fst (debate_round ?be2 ?cfg ?d2 [])
     = Success ''Actually, dogs bark.'' [(''response'', ''Actually, dogs bark.'')] ''for''
       [JObj [(''side'', JStr ''for''), (''text'', JStr ''Actually, cats purr.'')],
        JObj [(''side'', JStr ''against''), (''text'', JStr ''Actually, dogs bark.'')]]"
    by code_simp
  show ?thesis
    using debate_round_next_side [where data = ?d1 and side = "''for''" and be = ?be1
        and cfg = ?cfg and lg = "[]" and n = "''against''"
        and a = "''Actually, cats purr.''" and mtext = "''true: the debate is circular.''"
        and s = "''Actually, cats purr.''"]
      debate_round_next_side [where data = ?d2 and side = "''against''" and be = ?be2
        and cfg = ?cfg and lg = "[]" and n = "''for''"
        and a' = "''Actually, dogs bark.''" and ev = "[(''response'', ''Actually, dogs bark.'')]"
        and h = "[JObj [(''side'', JStr ''for''), (''text'', JStr ''Actually, cats purr.'')],
        JObj [(''side'', JStr ''against''), (''text'', JStr ''Actually, dogs bark.'')]]"]
      ev1 ev2
    by simp
qed

lemma alternates_snoc:
  "alternates h \<Longrightarrow> (h = [] \<or> entry_side (last h) \<noteq> entry_side e) \<Longrightarrow> alternates (h @ [e])"
  by (induction h rule: alternates.induct) auto

section \<open>The history grows by one entry\<close>

text \<open>
  Claim C6, as amended. When \<^verbatim>\<open>debate_round\<close> answers with the status \<^verbatim>\<open>'success'\<close>, the
  history it returns is the history of the request (empty for \<^verbatim>\<open>null\<close>), unchanged,
  followed by the one new entry \<^verbatim>\<open>{'side': current_side, 'text': argument}\<close>, where the
  argument is the \<^verbatim>\<open>'response'\<close> text of the debate model's reply. The sides of
  successive entries alternate in the returned history when they do in the request's
  history and \<^verbatim>\<open>current_side\<close> is not the side of its last entry; the route does not
  check the latter.
\<close>

theorem debate_round_appends_one:
  "fst (debate_round be cfg data lg) = Success a ev n h \<and> req_current_side data = Some side
   \<longrightarrow>
     h = (case req_debate_history data of None \<Rightarrow> [] | Some x \<Rightarrow> x)
           @ [JObj [(''side'', JStr side), (''text'', JStr a)]]
   \<and> (\<exists>p d. be (length lg) (DEBATE_MODEL cfg) p = Returns d \<and> map_of d ''response'' = Some a)
   \<and> (alternates (case req_debate_history data of None \<Rightarrow> [] | Some x \<Rightarrow> x)
        \<and> ((case req_debate_history data of None \<Rightarrow> [] | Some x \<Rightarrow> x) = []
             \<or> entry_side (last (case req_debate_history data of None \<Rightarrow> [] | Some x \<Rightarrow> x))
                  \<noteq> Some (JStr side))
        \<longrightarrow> alternates h)"
proof
  let ?h0 = "case req_debate_history data of None \<Rightarrow> [] | Some x \<Rightarrow> x"
  assume asm: "fst (debate_round be cfg data lg) = Success a ev n h \<and> req_current_side data = Some side"
  then have r': "fst (debate_round_body be cfg data lg) = Inr (Success a ev n h)"
    using handle_errors_round(2) [of "fst (debate_round_body be cfg data lg)"]
    by (simp add: debate_round_fst)
  have rr: "(\<exists>a' mtext s n'. Success a ev n h = ModeratorIntervention a' mtext s n')
            \<or> (\<exists>a' ev' n' h'. Success a ev n h = Success a' ev' n' h')"
    by blast
  from r' rr obtain topic side' resp lg1 a0 texts p where st:
      "req_topic data = Some topic" "req_current_side data = Some side'"
      "side' = ''for'' \<or> side' = ''against''"
      "generate_response be (DEBATE_MODEL cfg) topic (req_debate_history data) side' lg
             = (Inr resp, lg1)"
      "be (length lg) (DEBATE_MODEL cfg) p = Returns resp"
      "lg1 = lg @ [(DEBATE_MODEL cfg, p)]"
      "map_of resp ''response'' = Some a0" "a0 \<noteq> []"
      "texts_of ((case req_debate_history data of None \<Rightarrow> [] | Some x \<Rightarrow> x)
             @ [JObj [(''side'', JStr side'), (''text'', JStr a0)]]) = Inr texts"
    by (rule body_round_cases)
  from asm st(2) have sd: "side' = side" by simp
  from body_round_result [OF st(1,2,3,4,7,9), where a' = a and ev = ev and h = h and n = n] r'
  have res: "a = a0" "h = ?h0 @ [JObj [(''side'', JStr side'), (''text'', JStr a0)]]"
    by auto
  have h: "h = ?h0 @ [JObj [(''side'', JStr side), (''text'', JStr a)]]"
    using res sd by simp
  have gen: "\<exists>p d. be (length lg) (DEBATE_MODEL cfg) p = Returns d \<and> map_of d ''response'' = Some a"
    using st(5,7) res(1) by blast
  have alt: "alternates h"
    if "alternates ?h0 \<and> (?h0 = [] \<or> entry_side (last ?h0) \<noteq> Some (JStr side))"
  proof -
    have "entry_side (JObj [(''side'', JStr side), (''text'', JStr a)]) = Some (JStr side)"
      by (simp add: entry_side_def)
    with that show ?thesis
      unfolding h by (intro alternates_snoc) auto
  qed
  from h gen alt show "h = ?h0 @ [JObj [(''side'', JStr side), (''text'', JStr a)]]
   \<and> (\<exists>p d. be (length lg) (DEBATE_MODEL cfg) p = Returns d \<and> map_of d ''response'' = Some a)
   \<and> (alternates ?h0 \<and> (?h0 = [] \<or> entry_side (last ?h0) \<noteq> Some (JStr side)) \<longrightarrow> alternates h)"
    by blast
qed


theorem debate_round_appends_one_witness:
  "fst (debate_round
     (\<lambda>n m p. Returns [(''response'', ''Actually, dogs bark.'')])
     \<lparr>FILTER_MODEL = ''llama3.2:3b'', PROMPT_MODEL = ''llama3.2:3b'',
      DEBATE_MODEL = ''llama3.2:3b'', MODERATOR_MODEL = ''llama3.2:3b''\<rparr>
     \<lparr>req_topic = Some ''Cats'',
      req_debate_history = Some [JObj [(''side'', JStr ''for''), (''text'', JStr ''Actually, cats purr.'')]],
      req_current_side = Some ''against''\<rparr> [])
   = Success ''Actually, dogs bark.'' [(''response'', ''Actually, dogs bark.'')] ''for''
       ([JObj [(''side'', JStr ''for''), (''text'', JStr ''Actually, cats purr.'')]]
        @ [JObj [(''side'', JStr ''against''), (''text'', JStr ''Actually, dogs bark.'')]])
   \<and> alternates [JObj [(''side'', JStr ''for''), (''text'', JStr ''Actually, cats purr.'')],
                  JObj [(''side'', JStr ''against''), (''text'', JStr ''Actually, dogs bark.'')]]"
proof -
  let ?cfg = "\<lparr>FILTER_MODEL = ''llama3.2:3b'', PROMPT_MODEL = ''llama3.2:3b'',
      DEBATE_MODEL = ''llama3.2:3b'', MODERATOR_MODEL = ''llama3.2:3b''\<rparr>"
  let ?be = "\<lambda>(n::nat) (m::string) (p::string). Returns [(''response'', ''Actually, dogs bark.'')]"
  let ?d = "\<lparr>req_topic = Some ''Cats'',
      req_debate_history = Some [JObj [(''side'', JStr ''for''), (''text'', JStr ''Actually, cats purr.'')]],
      req_current_side = Some ''against''\<rparr>"
  let ?h = "[JObj [(''side'', JStr ''for''), (''text'', JStr ''Actually, cats purr.'')],
             JObj [(''side'', JStr ''against''), (''text'', JStr ''Actually, dogs bark.'')]]"
  have ev: "fst (debate_round ?be ?cfg ?d [])
     = Success ''Actually, dogs bark.'' [(''response'', ''Actually, dogs bark.'')] ''for'' ?h"
    by code_simp
  show ?thesis
    using debate_round_appends_one [where data = ?d and side = "''against''" and be = ?be and cfg = ?cfg and lg = "[]"
        and a = "''Actually, dogs bark.''" and ev = "[(''response'', ''Actually, dogs bark.'')]"
        and n = "''for''" and h = ?h] ev
    by (simp add: entry_side_def)
qed

text \<open>
  Without that condition the sides need not alternate: a request that names the side
  of the last entry again is answered with a history whose last two entries have the
  same side.
\<close>

theorem same_side_twice_counterexample:
  "fst (debate_round
     (\<lambda>n m p. Returns [(''response'', ''Actually, dogs bark.'')])
     \<lparr>FILTER_MODEL = ''llama3.2:3b'', PROMPT_MODEL = ''llama3.2:3b'',
      DEBATE_MODEL = ''llama3.2:3b'', MODERATOR_MODEL = ''llama3.2:3b''\<rparr>
     \<lparr>req_topic = Some ''Cats'',
      req_debate_history = Some [JObj [(''side'', JStr ''for''), (''text'', JStr ''Actually, cats purr.'')]],
      req_current_side = Some ''for''\<rparr> [])
   = Success ''Actually, dogs bark.'' [(''response'', ''Actually, dogs bark.'')] ''against''
       [JObj [(''side'', JStr ''for''), (''text'', JStr ''Actually, cats purr.'')],
        JObj [(''side'', JStr ''for''), (''text'', JStr ''Actually, dogs bark.'')]]
   \<and> \<not> alternates [JObj [(''side'', JStr ''for''), (''text'', JStr ''Actually, cats purr.'')],
                    JObj [(''side'', JStr ''for''), (''text'', JStr ''Actually, dogs bark.'')]]"
  by code_simp


lemma texts_of_all_dicts:
  assumes "texts_of h = Inr ts" and "e \<in> set h"
  shows "\<exists>d t. e = JObj d \<and> map_of d ''text'' = Some t"
proof -
  from texts_of_Inr [OF assms(1)]
  have "list_all2 (\<lambda>e t. \<exists>d. e = JObj d \<and> map_of d ''text'' = Some t) h ts" .
  then show ?thesis using assms(2)
    by (induction rule: list_all2_induct) auto
qed

lemma should_intervene_log:
  assumes "hist \<noteq> []" and "format_history (last_n 3 hist) = Inr fh"
  shows "\<exists>chk. should_intervene be m topic hist lg
           = (Inr chk, lg @ [(m, intervene_prompt topic (join_nl fh))])"
proof -
  let ?p = "intervene_prompt topic (join_nl fh)"
  obtain r where "request_text be m ?p lg = (r, lg @ [(m, ?p)])"
    using request_text_log [of be m ?p lg] by (cases "request_text be m ?p lg") auto
  with assms show ?thesis
    by (cases r) (simp_all add: should_intervene_def Let_def)
qed

lemma should_intervene_format_fails:
  assumes "hist \<noteq> []" and "format_history (last_n 3 hist) = Inl e"
  shows "should_intervene be m topic hist lg = (Inl e, lg)"
  using assms by (simp add: should_intervene_def)

lemma generate_summary_extends: "\<exists>rest. snd (generate_summary be m topic hist lg) = lg @ rest"
  by (cases "format_history (last_n 5 hist)")
     (auto simp: generate_summary_def request_text_log)

lemma evaluate_response_extends: "\<exists>rest. snd (evaluate_response be m topic a hist lg) = lg @ rest"
  by (cases "format_history (last_n 3 hist)")
     (auto simp: evaluate_response_def make_api_request_def)

lemma body_first_moderator_request:
  assumes "req_topic data = Some topic" and "req_current_side data = Some side"
      and "side = ''for'' \<or> side = ''against''"
      and "generate_response be (DEBATE_MODEL cfg) topic (req_debate_history data) side lg
             = (Inr resp, lg1)"
      and "map_of resp ''response'' = Some a"
      and "texts_of ((case req_debate_history data of None \<Rightarrow> [] | Some x \<Rightarrow> x)
             @ [JObj [(''side'', JStr side), (''text'', JStr a)]]) = Inr texts"
      and "format_history (last_n 3 texts) = Inr fh"
  shows "\<exists>rest. snd (debate_round_body be cfg data lg)
           = lg1 @ (MODERATOR_MODEL cfg, intervene_prompt topic (join_nl fh)) # rest"
proof -
  let ?M = "MODERATOR_MODEL cfg"
  let ?p1 = "(?M, intervene_prompt topic (join_nl fh))"
  from texts_of_length [OF assms(6)] have ne: "texts \<noteq> []" by auto
  from should_intervene_log [OF ne assms(7), of be ?M topic lg1]
  obtain chk where si: "should_intervene be ?M topic texts lg1 = (Inr chk, lg1 @ [?p1])"
    by blast
  note eq = body_moderated [OF assms(1,2,3,4,5,6), unfolded si, simplified]
  show ?thesis
  proof (cases "needs_intervention chk")
    case True
    obtain r lg3 where gs: "generate_summary be ?M topic texts (lg1 @ [?p1]) = (r, lg3)"
      by (cases "generate_summary be ?M topic texts (lg1 @ [?p1])")
    from generate_summary_extends [of be ?M topic texts "lg1 @ [?p1]"] gs
    obtain rest where "lg3 = lg1 @ ?p1 # rest" by auto
    with eq True gs show ?thesis by (cases r) auto
  next
    case False
    obtain r lg3 where ev: "evaluate_response be ?M topic a texts (lg1 @ [?p1]) = (r, lg3)"
      by (cases "evaluate_response be ?M topic a texts (lg1 @ [?p1])")
    from evaluate_response_extends [of be ?M topic a texts "lg1 @ [?p1]"] ev
    obtain rest where "lg3 = lg1 @ ?p1 # rest" by auto
    with eq False ev show ?thesis by (cases r) auto
  qed
qed


section \<open>What the moderator is handed\<close>

text \<open>
  Claim C10, as amended. In a round that reaches the moderator, the list it is handed
  is the projection \<^verbatim>\<open>[h['text'] for h in debate_history]\<close>: the value under \<^verbatim>\<open>'text'\<close> of
  each entry of the history with the new entry, in order, the side labels of the
  entries dropped. The first request of the moderator carries the last three of these
  values as the moderator formats them. When all of them are strings, the two requests
  of the moderator (the intervention check, then the summary or the evaluation) carry
  the plain strings joined by line feeds, and no \<^verbatim>\<open>SIDE: text\<close> line. A round outcome
  requires every entry of the supplied history to be a dict with a \<^verbatim>\<open>'text'\<close> key. When
  \<^verbatim>\<open>generate_response\<close> has accepted a history whose entries are strings and dicts with a
  \<^verbatim>\<open>'text'\<close> key, one string at least, the projection raises \<^verbatim>\<open>TypeError\<close> before the
  moderator is called, and the route answers with the generic error 500.
\<close>

theorem moderator_handed_projection:
  "(req_topic data = Some topic \<and> req_current_side data = Some side
    \<and> generate_response be (DEBATE_MODEL cfg) topic (req_debate_history data) side lg
          = (Inr resp, lgr)
    \<and> map_of resp ''response'' = Some a
    \<and> texts_of ((case req_debate_history data of None \<Rightarrow> [] | Some x \<Rightarrow> x)
                 @ [JObj [(''side'', JStr side), (''text'', JStr a)]]) = Inr texts
    \<longrightarrow>
      list_all2 (\<lambda>e t. \<exists>d. e = JObj d \<and> map_of d ''text'' = Some t)
        ((case req_debate_history data of None \<Rightarrow> [] | Some x \<Rightarrow> x)
          @ [JObj [(''side'', JStr side), (''text'', JStr a)]]) texts
    \<and> (\<forall>fh. format_history (last_n 3 texts) = Inr fh \<longrightarrow>
           (\<exists>rest. snd (debate_round be cfg data lg)
              = lgr @ (MODERATOR_MODEL cfg, intervene_prompt topic (join_nl fh)) # rest))
    \<and> (\<forall>ts. texts = map JStr ts \<longrightarrow>
           (\<exists>q. snd (debate_round be cfg data lg)
               = lgr @ [(MODERATOR_MODEL cfg, intervene_prompt topic (join_nl (last_n 3 ts))),
                        (MODERATOR_MODEL cfg, q)]
            \<and> (q = summary_prompt topic (join_nl (last_n 5 ts))
                 \<or> q = evaluate_prompt topic a (join_nl (last_n 3 ts))))))
   \<and> (fst (debate_round be cfg data lg) = ModeratorIntervention ai mtext s n
       \<or> fst (debate_round be cfg data lg) = Success ae ev n h
      \<longrightarrow> (\<forall>e \<in> set (case req_debate_history data of None \<Rightarrow> [] | Some x \<Rightarrow> x).
             \<exists>d t. e = JObj d \<and> map_of d ''text'' = Some t))
   \<and> (req_topic data = Some topic \<and> req_current_side data = Some side
       \<and> generate_response be (DEBATE_MODEL cfg) topic (req_debate_history data) side lg
             = (Inr resp, lgr)
       \<and> JStr raw \<in> set (case req_debate_history data of None \<Rightarrow> [] | Some x \<Rightarrow> x)
       \<and> (\<forall>e \<in> set (case req_debate_history data of None \<Rightarrow> [] | Some x \<Rightarrow> x).
              (\<exists>s. e = JStr s) \<or> (\<exists>d. e = JObj d \<and> map_of d ''text'' \<noteq> None))
      \<longrightarrow> debate_round_body be cfg data lg
            = (Inl (Exn TypeError (''string indices must be integers, not 'str'' @ [CHR 0x27])), lgr)
        \<and> debate_round be cfg data lg
            = (ErrorResponse 500 ''An unexpected error occurred. Please try again.'', lgr))"
proof (intro conjI impI)
  let ?h0 = "case req_debate_history data of None \<Rightarrow> [] | Some x \<Rightarrow> x"
  assume asm: "req_topic data = Some topic \<and> req_current_side data = Some side
    \<and> generate_response be (DEBATE_MODEL cfg) topic (req_debate_history data) side lg
          = (Inr resp, lgr)
    \<and> map_of resp ''response'' = Some a
    \<and> texts_of (?h0 @ [JObj [(''side'', JStr side), (''text'', JStr a)]]) = Inr texts"
  then have f: "req_topic data = Some topic" "req_current_side data = Some side"
    "generate_response be (DEBATE_MODEL cfg) topic (req_debate_history data) side lg
          = (Inr resp, lgr)"
    "map_of resp ''response'' = Some a"
    "texts_of (?h0 @ [JObj [(''side'', JStr side), (''text'', JStr a)]]) = Inr texts"
    by blast+
  from generate_response_ok [OF f(3)] f(4)
  have ok: "a \<noteq> []" "side = ''for'' \<or> side = ''against''" by auto
  show "list_all2 (\<lambda>e t. \<exists>d. e = JObj d \<and> map_of d ''text'' = Some t)
        (?h0 @ [JObj [(''side'', JStr side), (''text'', JStr a)]]) texts"
    using f(5) by (rule texts_of_Inr)
  show "\<forall>fh. format_history (last_n 3 texts) = Inr fh \<longrightarrow>
           (\<exists>rest. snd (debate_round be cfg data lg)
              = lgr @ (MODERATOR_MODEL cfg, intervene_prompt topic (join_nl fh)) # rest)"
  proof (intro allI impI)
    fix fh assume fh: "format_history (last_n 3 texts) = Inr fh"
    from body_first_moderator_request [OF f(1,2) ok(2) f(3,4,5) fh]
    show "\<exists>rest. snd (debate_round be cfg data lg)
              = lgr @ (MODERATOR_MODEL cfg, intervene_prompt topic (join_nl fh)) # rest"
      by (simp add: debate_round_snd)
  qed
  show "\<forall>ts. texts = map JStr ts \<longrightarrow>
           (\<exists>q. snd (debate_round be cfg data lg)
               = lgr @ [(MODERATOR_MODEL cfg, intervene_prompt topic (join_nl (last_n 3 ts))),
                        (MODERATOR_MODEL cfg, q)]
            \<and> (q = summary_prompt topic (join_nl (last_n 5 ts))
                 \<or> q = evaluate_prompt topic a (join_nl (last_n 3 ts))))"
  proof (intro allI impI)
    fix ts assume ts: "texts = map JStr ts"
    from body_round_log [OF f(1,2) ok(2) f(3,4) ok(1) f(5) [unfolded ts]]
    show "\<exists>q. snd (debate_round be cfg data lg)
               = lgr @ [(MODERATOR_MODEL cfg, intervene_prompt topic (join_nl (last_n 3 ts))),
                        (MODERATOR_MODEL cfg, q)]
            \<and> (q = summary_prompt topic (join_nl (last_n 5 ts))
                 \<or> q = evaluate_prompt topic a (join_nl (last_n 3 ts)))"
      by (simp add: debate_round_snd)
  qed
next
  let ?h0 = "case req_debate_history data of None \<Rightarrow> [] | Some x \<Rightarrow> x"
  assume "fst (debate_round be cfg data lg) = ModeratorIntervention ai mtext s n
       \<or> fst (debate_round be cfg data lg) = Success ae ev n h"
  then have "fst (debate_round_body be cfg data lg) = Inr (ModeratorIntervention ai mtext s n)
       \<or> fst (debate_round_body be cfg data lg) = Inr (Success ae ev n h)"
    using handle_errors_round [of "fst (debate_round_body be cfg data lg)"]
    by (auto simp: debate_round_fst)
  then obtain r where r': "fst (debate_round_body be cfg data lg) = Inr r"
    and rr: "(\<exists>a mtext s n. r = ModeratorIntervention a mtext s n) \<or> (\<exists>a ev n h. r = Success a ev n h)"
    by blast
  from r' rr obtain topic' side' resp' lg1' a0 texts' p where st:
      "req_topic data = Some topic'" "req_current_side data = Some side'"
      "side' = ''for'' \<or> side' = ''against''"
      "generate_response be (DEBATE_MODEL cfg) topic' (req_debate_history data) side' lg
             = (Inr resp', lg1')"
      "be (length lg) (DEBATE_MODEL cfg) p = Returns resp'"
      "lg1' = lg @ [(DEBATE_MODEL cfg, p)]"
      "map_of resp' ''response'' = Some a0" "a0 \<noteq> []"
      "texts_of (?h0 @ [JObj [(''side'', JStr side'), (''text'', JStr a0)]]) = Inr texts'"
    by (rule body_round_cases)
  show "\<forall>e \<in> set ?h0. \<exists>d t. e = JObj d \<and> map_of d ''text'' = Some t"
  proof
    fix e assume "e \<in> set ?h0"
    then have "e \<in> set (?h0 @ [JObj [(''side'', JStr side'), (''text'', JStr a0)]])" by simp
    with st(9) show "\<exists>d t. e = JObj d \<and> map_of d ''text'' = Some t"
      by (rule texts_of_all_dicts)
  qed
next
  let ?h0 = "case req_debate_history data of None \<Rightarrow> [] | Some x \<Rightarrow> x"
  let ?err = "Exn TypeError (''string indices must be integers, not 'str'' @ [CHR 0x27])"
  assume asm: "req_topic data = Some topic \<and> req_current_side data = Some side
       \<and> generate_response be (DEBATE_MODEL cfg) topic (req_debate_history data) side lg
             = (Inr resp, lgr)
       \<and> JStr raw \<in> set ?h0
       \<and> (\<forall>e \<in> set ?h0. (\<exists>s. e = JStr s) \<or> (\<exists>d. e = JObj d \<and> map_of d ''text'' \<noteq> None))"
  then have f: "req_topic data = Some topic" "req_current_side data = Some side"
    "generate_response be (DEBATE_MODEL cfg) topic (req_debate_history data) side lg
          = (Inr resp, lgr)"
    "JStr raw \<in> set ?h0"
    "\<forall>e \<in> set ?h0. (\<exists>s. e = JStr s) \<or> (\<exists>d. e = JObj d \<and> map_of d ''text'' \<noteq> None)"
    by blast+
  from generate_response_ok [OF f(3)]
  obtain a where ok: "map_of resp ''response'' = Some a" "side = ''for'' \<or> side = ''against''"
    by blast
  from texts_of_raw [OF f(4,5), of "[JObj [(''side'', JStr side), (''text'', JStr a)]]"]
  have t: "texts_of (?h0 @ [JObj [(''side'', JStr side), (''text'', JStr a)]]) = Inl ?err" .
  from body_texts_fail [OF f(1,2) ok(2) f(3) ok(1) t]
  have b: "debate_round_body be cfg data lg = (Inl ?err, lgr)" .
  then show "debate_round_body be cfg data lg = (Inl ?err, lgr)" .
  from b show "debate_round be cfg data lg
            = (ErrorResponse 500 ''An unexpected error occurred. Please try again.'', lgr)"
    by (simp add: debate_round_def handle_errors_def is_instance_def)
qed

theorem moderator_handed_projection_witness:
  "debate_round
     (\<lambda>n m p. Returns [(''response'', ''Actually, dogs bark.'')])
     \<lparr>FILTER_MODEL = ''llama3.2:3b'', PROMPT_MODEL = ''llama3.2:3b'',
      DEBATE_MODEL = ''llama3.2:3b'', MODERATOR_MODEL = ''llama3.2:3b''\<rparr>
     \<lparr>req_topic = Some ''Cats'', req_debate_history = Some [JStr ''Cats purr.''],
      req_current_side = Some ''against''\<rparr> []
   = (ErrorResponse 500 ''An unexpected error occurred. Please try again.'',
      [(''llama3.2:3b'', response_prompt ''Cats'' ''against'' ''Point 1: Cats purr.\<newline>'')])
   \<and> snd (debate_round
     (\<lambda>n m p. Returns [(''response'', ''Actually, dogs bark.'')])
     \<lparr>FILTER_MODEL = ''llama3.2:3b'', PROMPT_MODEL = ''llama3.2:3b'',
      DEBATE_MODEL = ''llama3.2:3b'', MODERATOR_MODEL = ''llama3.2:3b''\<rparr>
     \<lparr>req_topic = Some ''Cats'',
      req_debate_history =
        Some [JObj [(''side'', JStr ''for''), (''text'', JStr ''Actually, cats purr.'')]],
      req_current_side = Some ''against''\<rparr> [])
   = [(''llama3.2:3b'', response_prompt ''Cats'' ''against'' ''FOR: Actually, cats purr.\<newline>''),
      (''llama3.2:3b'',
         intervene_prompt ''Cats'' ''Actually, cats purr.\<newline>Actually, dogs bark.''),
      (''llama3.2:3b'',
         evaluate_prompt ''Cats'' ''Actually, dogs bark.''
           ''Actually, cats purr.\<newline>Actually, dogs bark.'')]"
proof -
  let ?cfg = "\<lparr>FILTER_MODEL = ''llama3.2:3b'', PROMPT_MODEL = ''llama3.2:3b'',
      DEBATE_MODEL = ''llama3.2:3b'', MODERATOR_MODEL = ''llama3.2:3b''\<rparr>"
  let ?be = "\<lambda>(n::nat) (m::string) (p::string). Returns [(''response'', ''Actually, dogs bark.'')]"
  let ?d = "\<lparr>req_topic = Some ''Cats'', req_debate_history = Some [JStr ''Cats purr.''],
      req_current_side = Some ''against''\<rparr>"
  let ?d2 = "\<lparr>req_topic = Some ''Cats'',
      req_debate_history =
        Some [JObj [(''side'', JStr ''for''), (''text'', JStr ''Actually, cats purr.'')]],
      req_current_side = Some ''against''\<rparr>"
  let ?lg1 = "[(''llama3.2:3b'', response_prompt ''Cats'' ''against'' ''Point 1: Cats purr.\<newline>'')]"
  have g: "generate_response ?be (DEBATE_MODEL ?cfg) ''Cats'' (req_debate_history ?d) ''against'' []
             = (Inr [(''response'', ''Actually, dogs bark.'')], ?lg1)"
    by code_simp
  have first: "debate_round ?be ?cfg ?d []
     = (ErrorResponse 500 ''An unexpected error occurred. Please try again.'', ?lg1)"
    using moderator_handed_projection [where data = ?d and topic = "''Cats''"
        and side = "''against''" and be = ?be
        and cfg = ?cfg and lg = "[]" and lgr = ?lg1
        and resp = "[(''response'', ''Actually, dogs bark.'')]" and raw = "''Cats purr.''"] g
    by simp
  have second: "snd (debate_round ?be ?cfg ?d2 [])
     = [(''llama3.2:3b'', response_prompt ''Cats'' ''against'' ''FOR: Actually, cats purr.\<newline>''),
        (''llama3.2:3b'',
                 intervene_prompt ''Cats'' ''Actually, cats purr.\<newline>Actually, dogs bark.''),
               (''llama3.2:3b'',
                 evaluate_prompt ''Cats'' ''Actually, dogs bark.''
                   ''Actually, cats purr.\<newline>Actually, dogs bark.'')]"
    by code_simp
  from first second show ?thesis by simp
qed

text \<open>
  The claim as stated fails twice. An entry whose \<^verbatim>\<open>'text'\<close> is itself a dict with
  \<^verbatim>\<open>'side'\<close> and \<^verbatim>\<open>'text'\<close> is handed to the moderator as a dict, and the moderator's
  requests hold the line \<^verbatim>\<open>FOR: Cats purr.\<close> of the structured branch. And a history with a
  legacy string does not always end in \<^verbatim>\<open>TypeError\<close>: a dict without \<^verbatim>\<open>'text'\<close> before it
  raises \<^verbatim>\<open>KeyError\<close> first.
\<close>

theorem object_text_and_missing_text_counterexample:
  "snd (debate_round
     (\<lambda>n m p. Returns [(''response'', ''Actually, dogs bark.'')])
     \<lparr>FILTER_MODEL = ''llama3.2:3b'', PROMPT_MODEL = ''llama3.2:3b'',
      DEBATE_MODEL = ''llama3.2:3b'', MODERATOR_MODEL = ''llama3.2:3b''\<rparr>
     \<lparr>req_topic = Some ''Cats'',
      req_debate_history =
        Some [JObj [(''side'', JStr ''for''),
                    (''text'', JObj [(''side'', JStr ''for''), (''text'', JStr ''Cats purr.'')])]],
      req_current_side = Some ''against''\<rparr> [])
   = [(''llama3.2:3b'',
       response_prompt ''Cats'' ''against'' ''FOR: {'side': 'for', 'text': 'Cats purr.'}\<newline>''),
      (''llama3.2:3b'',
       intervene_prompt ''Cats'' ''FOR: Cats purr.\<newline>Actually, dogs bark.''),
      (''llama3.2:3b'',
       evaluate_prompt ''Cats'' ''Actually, dogs bark.''
         ''FOR: Cats purr.\<newline>Actually, dogs bark.'')]
   \<and> debate_round_body
     (\<lambda>n m p. Returns [(''response'', ''Actually, dogs bark.'')])
     \<lparr>FILTER_MODEL = ''llama3.2:3b'', PROMPT_MODEL = ''llama3.2:3b'',
      DEBATE_MODEL = ''llama3.2:3b'', MODERATOR_MODEL = ''llama3.2:3b''\<rparr>
     \<lparr>req_topic = Some ''Cats'',
      req_debate_history =
        Some [JObj [(''side'', JStr ''for'')], JStr ''a'', JStr ''b'', JStr ''c''],
      req_current_side = Some ''against''\<rparr> []
   = (Inl (Exn KeyError ([CHR 0x27] @ ''text'' @ [CHR 0x27])),
      [(''llama3.2:3b'',
        response_prompt ''Cats'' ''against''
          ''Point 1: a\<newline>Point 2: b\<newline>Point 3: c\<newline>'')])"
  by code_simp

end
